theory Spec2Isabelle
  imports Complex_Main
begin

section \<open>Gravitational-wave calculations of aCOSMIC (\<open>GW_calcs.py\<close>)\<close>

text \<open>
  The module works on IEEE doubles held in numpy arrays and pandas Series. The model
  reads every double as a real number: \<open>x ** y\<close> with a fractional exponent is
  \<open>x powr y\<close>, \<open>x ** 0.5\<close> is \<open>sqrt x\<close> (numpy evaluates the exponent 0.5 as a
  square root), and a Series is the list of its values in positional order. Rounding,
  infinities and NaN are outside the model; numpy produces the latter without
  raising, so they are never an error branch of the code.

  Two collaborators are not part of the module and are parameters of the model:
  the Bessel function of the first kind \<open>scipy.special.jv\<close> (order, argument) and the
  noise curve returned by \<open>lisa_sensitivity.lisa_root_psd()\<close>.
\<close>

subsection \<open>Module constants\<close>

definition G :: real where "G = 6.67384 / 10 ^ 11"
definition c :: real where "c = 2.99792458 * 10 ^ 8"
definition parsec :: real where "parsec = 3.08567758 * 10 ^ 16"
definition Msun :: real where "Msun = 1.9891 * 10 ^ 30"
definition sec_in_year :: real where "sec_in_year = 3.15569 * 10 ^ 7"

subsection \<open>Closed-form helpers\<close>

definition m_chirp :: "real \<Rightarrow> real \<Rightarrow> real" where
  "m_chirp m1 m2 = (m1 * m2) powr (3 / 5) / (m1 + m2) powr (1 / 5)"

definition peak_gw_freq :: "real \<Rightarrow> real \<Rightarrow> real \<Rightarrow> real \<Rightarrow> real" where
  "peak_gw_freq m1 m2 ecc porb =
     (let sep_m = (G / (4 * pi ^ 2) * porb ^ 2 * (m1 + m2)) powr (1 / 3)
      in (sqrt (G * (m1 + m2)) / pi) * (1 + ecc) powr 1.1954
           / (sep_m * (1 - ecc) ^ 2) powr 1.5)"

subsection \<open>Harmonic weights: \<open>peters_gfac\<close>\<close>

text \<open>
  The loop \<open>for n in range(1, n_harmonic)\<close> appends one entry per harmonic; the model
  maps the loop body over the integers \<open>1 .. n_harmonic - 1\<close>. With a scalar
  eccentricity every entry is a number.
\<close>

definition peters_gfac :: "(int \<Rightarrow> real \<Rightarrow> real) \<Rightarrow> real \<Rightarrow> int \<Rightarrow> real list" where
  "peters_gfac jv ecc n_harmonic =
     map (\<lambda>n. (of_int n ^ 4 / 32) *
               ((jv (n - 2) (of_int n * ecc) - 2 * ecc * jv (n - 1) (of_int n * ecc)
                  + 2 / of_int n * jv n (of_int n * ecc)
                  + 2 * ecc * jv (n + 1) (of_int n * ecc)
                  - jv (n + 2) (of_int n * ecc)) ^ 2
                + (1 - ecc ^ 2) *
                  (jv (n - 2) (of_int n * ecc) - 2 * jv n (of_int n * ecc)
                    + jv (n + 2) (of_int n * ecc)) ^ 2
                + (4 / (3 * of_int n ^ 2)) * (jv n (of_int n * ecc)) ^ 2)
               / of_int n ^ 2)
         [1 .. n_harmonic - 1]"

text \<open>
  With a Series of eccentricities the same loop body is evaluated elementwise, so each
  appended entry is a Series and \<open>np.array\<close> of the list is a matrix with one row per
  harmonic and one column per source.
\<close>

definition peters_gfac_series ::
  "(int \<Rightarrow> real \<Rightarrow> real) \<Rightarrow> real list \<Rightarrow> int \<Rightarrow> real list list" where
  "peters_gfac_series jv eccs n_harmonic =
     map (\<lambda>n. map (\<lambda>ecc. (of_int n ^ 4 / 32) *
               ((jv (n - 2) (of_int n * ecc) - 2 * ecc * jv (n - 1) (of_int n * ecc)
                  + 2 / of_int n * jv n (of_int n * ecc)
                  + 2 * ecc * jv (n + 1) (of_int n * ecc)
                  - jv (n + 2) (of_int n * ecc)) ^ 2
                + (1 - ecc ^ 2) *
                  (jv (n - 2) (of_int n * ecc) - 2 * jv n (of_int n * ecc)
                    + jv (n + 2) (of_int n * ecc)) ^ 2
                + (4 / (3 * of_int n ^ 2)) * (jv n (of_int n * ecc)) ^ 2)
               / of_int n ^ 2) eccs)
         [1 .. n_harmonic - 1]"

text \<open>
  The weight of harmonic \<open>n\<close> as the specification writes it (section 4.1), with
  \<open>J k x\<close> the Bessel function of the first kind of order \<open>k\<close>.
\<close>

definition g_spec :: "(int \<Rightarrow> real \<Rightarrow> real) \<Rightarrow> int \<Rightarrow> real \<Rightarrow> real" where
  "g_spec J n \<epsilon> =
     (of_int n ^ 4 / 32) *
       ((J (n - 2) (of_int n * \<epsilon>) - 2 * \<epsilon> * J (n - 1) (of_int n * \<epsilon>)
           + (2 / of_int n) * J n (of_int n * \<epsilon>)
           + 2 * \<epsilon> * J (n + 1) (of_int n * \<epsilon>) - J (n + 2) (of_int n * \<epsilon>)) ^ 2
        + (1 - \<epsilon> ^ 2) *
          (J (n - 2) (of_int n * \<epsilon>) - 2 * J n (of_int n * \<epsilon>) + J (n + 2) (of_int n * \<epsilon>)) ^ 2
        + (4 / (3 * of_int n ^ 2)) * (J n (of_int n * \<epsilon>)) ^ 2)
     / of_int n ^ 2"

subsection \<open>Catalog, tables and errors\<close>

text \<open>
  The five Series arguments \<open>m1, m2, porb, ecc, dist\<close> are the columns of one catalog,
  columns of doubles of the same length with the same index; the model passes the
  catalog as the list of its rows, and an elementwise operation on Series is a map over
  the rows. A result table is the list of its rows, and the empty table with the same
  columns is the empty list.
\<close>

record binary =
  m1 :: real
  m2 :: real
  porb :: real
  ecc :: real
  dist :: real

record snr_row =
  gw_freq :: real
  SNR :: real

text \<open>
  The source of the scenarios of the specification (section 8): two stars of half a solar
  mass, a period of 1000 s, at 1 kpc, with eccentricity \<open>e\<close>. The scenarios observe for
  four years (\<open>4 * sec_in_year\<close>) with \<open>n_harmonic = 10\<close>.
\<close>

abbreviation scenario :: "real \<Rightarrow> binary" where
  "scenario e \<equiv> \<lparr>m1 = 0.5 * Msun, m2 = 0.5 * Msun, porb = 1000, ecc = e, dist = 1000 * parsec\<rparr>"

text \<open>
  The module has no \<open>raise\<close> statement and defines no exception class. The errors below
  are the ones the interpreter and numpy raise on the paths the model follows.
\<close>

datatype error = ValueError | NameError | ZeroDivisionError | AttributeError | KeyError

subsection \<open>Array operations\<close>

text \<open>\<open>np.where(cond)\<close>: the positions where the condition holds, in increasing order.\<close>

definition np_where :: "bool list \<Rightarrow> nat list" where
  "np_where cond = filter (\<lambda>i. cond ! i) [0 ..< length cond]"

text \<open>\<open>s.iloc[ind]\<close>: the values at the given positions (always in range here).\<close>

definition iloc :: "'a list \<Rightarrow> nat list \<Rightarrow> 'a list" where
  "iloc s ind = map (\<lambda>i. s ! i) ind"

text \<open>\<open>a[ind] = vals\<close>: in-place assignment at the given positions, returned as a new list.\<close>

definition put :: "'a list \<Rightarrow> nat list \<Rightarrow> 'a list \<Rightarrow> 'a list" where
  "put a ind vals = fold (\<lambda>(i, v) acc. acc[i := v]) (zip ind vals) a"

text \<open>\<open>flat.reshape((r, k))\<close>: rows of \<open>k\<close> consecutive entries.\<close>

definition reshape :: "nat \<Rightarrow> nat \<Rightarrow> 'a list \<Rightarrow> 'a list list" where
  "reshape r k flat = map (\<lambda>i. take k (drop (i * k) flat)) [0 ..< r]"

text \<open>Elementwise binary operation on two matrices of the same shape.\<close>

definition mat2 :: "('a \<Rightarrow> 'b \<Rightarrow> 'c) \<Rightarrow> 'a list list \<Rightarrow> 'b list list \<Rightarrow> 'c list list" where
  "mat2 f A B = map2 (map2 f) A B"

text \<open>\<open>M.sum(axis=0)\<close> of a matrix with at least one row: the column sums.\<close>

definition sum_axis0 :: "real list list \<Rightarrow> real list" where
  "sum_axis0 M = map sum_list (transpose M)"

subsection \<open>Strain amplitude (lines 166 and 240)\<close>

definition h_0 :: "real \<Rightarrow> real \<Rightarrow> real \<Rightarrow> real" where
  "h_0 mChirp d p =
     8 * G / c ^ 2 * mChirp / d * (G / c ^ 3 * 2 * pi * (1 / p) * mChirp) powr (2 / 3)"

text \<open>
  The chirp mass and the strain as the specification writes them (sections 3 and 4.3):
  \<open>(m1 * m2)^(3/5) / (m1 + m2)^(1/5)\<close> and
  \<open>h0 = 8 G/c\<^sup>2 * (M_chirp / dist) * (G/c\<^sup>3 * 2 pi / porb * M_chirp)^(2/3)\<close>.
\<close>

definition chirp_mass_spec :: "real \<Rightarrow> real \<Rightarrow> real" where
  "chirp_mass_spec ma mb = (ma * mb) powr (3 / 5) / (ma + mb) powr (1 / 5)"

definition h0_spec :: "real \<Rightarrow> real \<Rightarrow> real \<Rightarrow> real" where
  "h0_spec M_chirp P D =
     8 * G / c ^ 2 * (M_chirp / D) * (G / c ^ 3 * (2 * pi / P) * M_chirp) powr (2 / 3)"

subsection \<open>\<open>LISA_SNR\<close>\<close>

text \<open>
  \<open>SNR_dat\<close> is the table built at line 190, before the threshold. When there is an
  eccentric source and \<open>n_harmonic < 2\<close>, the harmonic arrays have no row (or
  \<open>np.ones\<close> gets a negative length) and numpy raises \<open>ValueError\<close> before line 190:
  for \<open>n_harmonic \<le> 0\<close> at \<open>reshape\<close> or \<open>np.ones\<close>, for \<open>n_harmonic = 1\<close> at the
  broadcast of line 186 or at the assignment of the empty column sums at line 188.
\<close>

definition SNR_dat ::
  "(real \<Rightarrow> real) \<Rightarrow> (int \<Rightarrow> real \<Rightarrow> real) \<Rightarrow> binary list \<Rightarrow> int \<Rightarrow> real
     \<Rightarrow> error + snr_row list" where
  "SNR_dat LISA_psd jv cat n_harmonic Tobs =
     (let mChirp = map (\<lambda>b. m_chirp (m1 b) (m2 b)) cat;
          h_0s = map2 (\<lambda>mc b. h_0 mc (dist b) (porb b)) mChirp cat;
          h_0_squared = map (\<lambda>h. h ^ 2) h_0s;
          SNR0 = replicate (length mChirp) 0;
          gw_freq0 = replicate (length mChirp) 0;
          ind_ecc = np_where (map (\<lambda>b. ecc b > 0.1) cat);
          ind_circ = np_where (map (\<lambda>b. ecc b \<le> 0.1) cat);
          SNR1 = put SNR0 ind_circ
                   (map2 (\<lambda>h p. h * 1 / 4 * Tobs / (LISA_psd (2 / p)) ^ 2)
                      (iloc h_0_squared ind_circ) (iloc (map porb cat) ind_circ));
          gw_freq1 = put gw_freq0 ind_circ (map (\<lambda>p. 2 / p) (iloc (map porb cat) ind_circ))
      in if length ind_ecc > 0 then
           if n_harmonic < 2 then Inl ValueError
           else
             let peters_g_factor = peters_gfac_series jv (iloc (map ecc cat) ind_ecc) n_harmonic;
                 GW_freq_array =
                   transpose (map (\<lambda>p. map (\<lambda>n. of_int n / p) [1 .. n_harmonic - 1])
                                (iloc (map porb cat) ind_ecc));
                 GW_freq_flat = concat GW_freq_array;
                 LISA_curve_eval_flat = map (\<lambda>f. (LISA_psd f) ^ 2) GW_freq_flat;
                 LISA_curve_eval =
                   reshape (nat (n_harmonic - 1)) (length ind_ecc) LISA_curve_eval_flat;
                 h_0_squared_ecc =
                   transpose (map (\<lambda>h. map (\<lambda>one. h * one) (replicate (nat (n_harmonic - 1)) 1))
                                (iloc h_0_squared ind_ecc));
                 SNR_squared =
                   mat2 (\<lambda>x y. x / y)
                     (mat2 (\<lambda>x y. x * y) (map (map (\<lambda>h. h * Tobs)) h_0_squared_ecc)
                        peters_g_factor)
                     LISA_curve_eval;
                 SNR2 = put SNR1 ind_ecc (map sqrt (sum_axis0 SNR_squared));
                 gw_freq2 = put gw_freq1 ind_ecc
                              (map (\<lambda>b. peak_gw_freq (m1 b) (m2 b) (ecc b) (porb b))
                                 (iloc cat ind_ecc))
             in Inr (map2 (\<lambda>f s. \<lparr>gw_freq = f, SNR = s\<rparr>) gw_freq2 SNR2)
         else Inr (map2 (\<lambda>f s. \<lparr>gw_freq = f, SNR = s\<rparr>) gw_freq1 SNR1))"

text \<open>
  Lines 191 to 196. \<open>SNR_dat.SNR > 1.0\<close> is the boolean mask, one entry per row, so
  \<open>len\<close> of it is the number of rows of the table, not the number of rows above the
  threshold.
\<close>

definition LISA_SNR ::
  "(real \<Rightarrow> real) \<Rightarrow> (int \<Rightarrow> real \<Rightarrow> real) \<Rightarrow> binary list \<Rightarrow> int \<Rightarrow> real
     \<Rightarrow> error + snr_row list" where
  "LISA_SNR LISA_psd jv cat n_harmonic Tobs =
     (case SNR_dat LISA_psd jv cat n_harmonic Tobs of
        Inl e \<Rightarrow> Inl e
      | Inr tab \<Rightarrow>
          if length (map (\<lambda>r. SNR r > 1) tab) > 1
          then Inr (filter (\<lambda>r. SNR r > 1) tab)
          else Inr [])"

subsection \<open>\<open>LISA_PSD\<close>\<close>

text \<open>
  The noise curve is fetched at line 237 and never used. In the eccentric branch,
  line 256 reads \<open>h_0_squared_ecc\<close>, a name that is assigned nowhere in this function
  nor at module level (it is a local of \<open>LISA_SNR\<close>); \<open>peters_gfac\<close> at line 255
  has returned by then, so the branch always ends in \<open>NameError\<close>.
\<close>

definition LISA_PSD ::
  "(int \<Rightarrow> real \<Rightarrow> real) \<Rightarrow> binary list \<Rightarrow> int \<Rightarrow> real \<Rightarrow> error + (real \<times> real) list" where
  "LISA_PSD jv cat n_harmonic Tobs =
     (let mChirp = map (\<lambda>b. m_chirp (m1 b) (m2 b)) cat;
          h_0s = map2 (\<lambda>mc b. h_0 mc (dist b) (porb b)) mChirp cat;
          h_0_squared = map (\<lambda>h. h ^ 2) h_0s;
          ind_ecc = np_where (map (\<lambda>b. ecc b > 0.1) cat);
          ind_circ = np_where (map (\<lambda>b. ecc b \<le> 0.1) cat);
          power = map (\<lambda>h. h * 1 / 4 * Tobs) (iloc h_0_squared ind_circ);
          psd = [] @ power;
          freq = [] @ map (\<lambda>p. 2 / p) (iloc (map porb cat) ind_circ)
      in if length ind_ecc > 0 then
           (let peters_g_factor = peters_gfac_series jv (iloc (map ecc cat) ind_ecc) n_harmonic
            in Inl NameError)
         else Inr (zip freq psd))"

subsection \<open>\<open>compute_foreground\<close>\<close>

text \<open>
  A DataFrame is the ordered list of its named columns, all of the same length; a column
  holds doubles or integers. The argument \<open>psd_dat\<close> is an object shared with the
  caller, so the model returns it next to the result: the pair of what the call returns
  or raises and of \<open>psd_dat\<close> after the call.
\<close>

datatype column = FloatCol "real list" | IntCol "int list"

type_synonym dataframe = "(string \<times> column) list"

fun as_floats :: "column \<Rightarrow> real list" where
  "as_floats (FloatCol xs) = xs"
| "as_floats (IntCol ks) = map of_int ks"

text \<open>\<open>df[name] = col\<close>: an existing column is replaced in place, a new one is appended.\<close>

fun set_column :: "dataframe \<Rightarrow> string \<Rightarrow> column \<Rightarrow> dataframe" where
  "set_column [] name col = [(name, col)]"
| "set_column ((k, v) # rest) name col =
     (if k = name then (k, col) # rest else (k, v) # set_column rest name col)"

text \<open>\<open>np.arange(start, stop, step)\<close>: \<open>ceil((stop - start) / step)\<close> entries \<open>start + i * step\<close>.\<close>

definition np_arange :: "real \<Rightarrow> real \<Rightarrow> real \<Rightarrow> real list" where
  "np_arange start stop step =
     map (\<lambda>i. start + real i * step) [0 ..< nat \<lceil>(stop - start) / step\<rceil>]"

text \<open>
  \<open>np.digitize(x, bins)\<close> for increasing bins: the index \<open>i\<close> with
  \<open>bins[i-1] <= x < bins[i]\<close>, that is the number of edges at or below \<open>x\<close>;
  0 below the first edge and \<open>len(bins)\<close> from the last edge on.
\<close>

definition digitize :: "real list \<Rightarrow> real list \<Rightarrow> nat list" where
  "digitize xs bins = map (\<lambda>x. length (filter (\<lambda>b. b \<le> x) bins)) xs"

text \<open>
  \<open>df[['PSD', 'digits']].groupby('digits').sum()['PSD']\<close>: a Series indexed by the
  distinct bin indices in increasing order, each with the sum of its group.
\<close>

definition groupby_sum :: "nat list \<Rightarrow> real list \<Rightarrow> (nat \<times> real) list" where
  "groupby_sum digits psd =
     map (\<lambda>d. (d, sum_list (map snd (filter (\<lambda>(d', p). d' = d) (zip digits psd)))))
       (sort (remdups digits))"

text \<open>The slice \<open>xs[:k]\<close>; a negative \<open>k\<close> counts from the end.\<close>

definition py_prefix :: "int \<Rightarrow> 'a list \<Rightarrow> 'a list" where
  "py_prefix k xs = (if 0 \<le> k then take (nat k) xs else take (length xs - nat (- k)) xs)"

text \<open>
  \<open>a[idx] = vals\<close> with numpy's broadcasting: the values need as many entries as there
  are positions, or a single entry that is repeated; anything else is a
  \<open>ValueError\<close> (shape mismatch).
\<close>

definition assign :: "real list \<Rightarrow> nat list \<Rightarrow> real list \<Rightarrow> error + real list" where
  "assign a idx vals =
     (if length vals = length idx then Inr (put a idx vals)
      else if length vals = 1 then Inr (put a idx (replicate (length idx) (hd vals)))
      else Inl ValueError)"

text \<open>
  Line 288 divides by \<open>Tobs\<close> (a Python float, \<open>ZeroDivisionError\<close> at 0); line 290
  reads the attribute \<open>psd_dat.freq\<close> (\<open>AttributeError\<close> without such a column); line
  291 assigns the column \<open>digits\<close> of \<open>psd_dat\<close>; line 292 selects the column
  \<open>PSD\<close> (\<open>KeyError\<close> without it); line 294 assigns the group sums at the first
  \<open>len(freqBinsLISA) - 1\<close> entries of the group index; line 295 pairs the edges with
  \<open>power_tot[1:]\<close>. For \<open>Tobs < 0\<close> the list of edges is empty and \<open>np.digitize\<close>
  is taken to return 0 for every sample, as \<open>searchsorted\<close> does; no property below is
  about that case.
\<close>

definition compute_foreground ::
  "dataframe \<Rightarrow> real \<Rightarrow> (error + (real \<times> real) list) \<times> dataframe" where
  "compute_foreground psd_dat Tobs =
     (if Tobs = 0 then (Inl ZeroDivisionError, psd_dat)
      else
        let binwidth = 1 / Tobs;
            freqBinsLISA = np_arange (5 / 10 ^ 4) (1 / 10 ^ 2) binwidth
        in case map_of psd_dat ''freq'' of
             None \<Rightarrow> (Inl AttributeError, psd_dat)
           | Some freq \<Rightarrow>
               let binIndices = digitize (as_floats freq) freqBinsLISA;
                   psd_dat' = set_column psd_dat ''digits'' (IntCol (map int binIndices))
               in case map_of psd_dat' ''PSD'' of
                    None \<Rightarrow> (Inl KeyError, psd_dat')
                  | Some PSD \<Rightarrow>
                      let power_sum = groupby_sum binIndices (as_floats PSD);
                          power_tot = replicate (length freqBinsLISA + 1) 0;
                          idx = py_prefix (int (length freqBinsLISA) - 1) (map fst power_sum)
                      in case assign power_tot idx (map snd power_sum) of
                           Inl e \<Rightarrow> (Inl e, psd_dat')
                         | Inr power_tot' \<Rightarrow> (Inr (zip freqBinsLISA (tl power_tot')), psd_dat'))"

section \<open>Properties\<close>

subsection \<open>Harmonic weights\<close>

lemma length_peters_gfac: "length (peters_gfac jv e N) = nat (N - 1)"
  by (simp add: peters_gfac_def)

lemma nth_upto_int: "1 \<le> n \<Longrightarrow> n \<le> k \<Longrightarrow> [1 .. k] ! nat (n - 1) = n"
  by (simp add: nth_upto)

lemma nth_peters_gfac:
  assumes "1 \<le> n" "n \<le> N - 1"
  shows "peters_gfac jv e N ! nat (n - 1) = g_spec jv n e"
proof -
  have "nat (n - 1) < length [1 .. N - 1]" using assms by simp
  then have "peters_gfac jv e N ! nat (n - 1)
      = (\<lambda>n. g_spec jv n e) ([1 .. N - 1] ! nat (n - 1))"
    unfolding peters_gfac_def g_spec_def by (rule nth_map)
  with assms show ?thesis by (simp add: nth_upto_int)
qed

text \<open>
  Claim C5. For an eccentricity in \<open>[0, 1)\<close> and \<open>n_harmonic \<ge> 2\<close>, \<open>peters_gfac\<close>
  returns exactly \<open>n_harmonic - 1\<close> entries, and the entry of harmonic \<open>n\<close>
  (\<open>n = 1 .. n_harmonic - 1\<close>, at position \<open>n - 1\<close>) is the Peters-Mathews weight
  written in the specification.
\<close>

theorem peters_gfac_entries:
  assumes "0 \<le> e" "e < 1" "2 \<le> N"
  shows "int (length (peters_gfac jv e N)) = N - 1
       \<and> (\<forall>n. 1 \<le> n \<and> n \<le> N - 1 \<longrightarrow> peters_gfac jv e N ! nat (n - 1) = g_spec jv n e)"
  using assms by (simp add: length_peters_gfac nth_peters_gfac)

theorem peters_gfac_entries_witness:
  "(0::real) \<le> 1 / 2 \<and> (1 / 2 :: real) < 1 \<and> (2::int) \<le> 3
   \<and> int (length (peters_gfac (\<lambda>k x. of_int k + x) (1 / 2) 3)) = 3 - 1
   \<and> peters_gfac (\<lambda>k x. of_int k + x) (1 / 2) 3 ! nat (2 - 1)
       = g_spec (\<lambda>k x. of_int k + x) 2 (1 / 2)"
proof -
  have "int (length (peters_gfac (\<lambda>k x. of_int k + x) (1 / 2) 3)) = 3 - 1
       \<and> (\<forall>n. 1 \<le> n \<and> n \<le> 3 - 1 \<longrightarrow>
            peters_gfac (\<lambda>k x. of_int k + x) (1 / 2) 3 ! nat (n - 1)
              = g_spec (\<lambda>k x. of_int k + x) n (1 / 2))"
    by (rule peters_gfac_entries) simp_all
  then have len: "int (length (peters_gfac (\<lambda>k x. of_int k + x) (1 / 2) 3)) = 3 - 1"
    and "(1::int) \<le> 2 \<and> (2::int) \<le> 3 - 1 \<longrightarrow>
         peters_gfac (\<lambda>k x. of_int k + x) (1 / 2) 3 ! nat (2 - 1)
              = g_spec (\<lambda>k x. of_int k + x) 2 (1 / 2)"
    by blast+
  then have "peters_gfac (\<lambda>k x. of_int k + x) (1 / 2) 3 ! nat (2 - 1)
              = g_spec (\<lambda>k x. of_int k + x) 2 (1 / 2)"
    by simp
  with len show ?thesis by simp
qed

subsection \<open>Array operations\<close>

text \<open>
  An assignment \<open>a[ind] = vals\<close> whose values are a function of the position, the
  transpose of a matrix given by rows, and \<open>reshape\<close> after \<open>flatten\<close>.
\<close>

lemma length_put: "length (put a ind vals) = length a"
proof -
  have "length (fold (\<lambda>(i, v) acc. acc[i := v]) zs a) = length a" for zs :: "(nat \<times> 'a) list"
    by (induction zs arbitrary: a) (auto split: prod.splits)
  then show ?thesis by (simp add: put_def)
qed

lemma put_Cons: "put a (i # ind) (v # vals) = put (a[i := v]) ind vals"
  by (simp add: put_def)

lemma put_Nil: "put a [] vals = a"
  by (simp add: put_def)

lemma nth_put_map:
  "i < length a \<Longrightarrow> put a ind (map g ind) ! i = (if i \<in> set ind then g i else a ! i)"
proof (induction ind arbitrary: a)
  case Nil
  then show ?case by (simp add: put_Nil)
next
  case (Cons j ind)
  then show ?case by (simp add: put_Cons nth_list_update)
qed

lemma set_np_where: "set (np_where (map P xs)) = {i. i < length xs \<and> P (xs ! i)}"
  by (auto simp: np_where_def)

lemma np_where_nonempty: "length (np_where (map P xs)) > 0 \<longleftrightarrow> (\<exists>x\<in>set xs. P x)"
proof -
  have "length (np_where (map P xs)) > 0 \<longleftrightarrow> set (np_where (map P xs)) \<noteq> {}" by simp
  also have "\<dots> \<longleftrightarrow> (\<exists>x\<in>set xs. P x)"
    unfolding set_np_where by (fastforce simp: in_set_conv_nth)
  finally show ?thesis .
qed

lemma map_upt_nth: "map (\<lambda>i. f (xs ! i)) [0 ..< length xs] = map f xs"
  by (rule nth_equalityI) simp_all

lemma transpose_map_map:
  assumes "xs \<noteq> []"
  shows "transpose (map (\<lambda>x. map (\<lambda>y. f x y) ys) xs) = map (\<lambda>y. map (\<lambda>x. f x y) xs) ys"
proof -
  let ?M = "map (\<lambda>x. map (\<lambda>y. f x y) ys) xs"
  have "transpose ?M = map (\<lambda>i. map (\<lambda>j. ?M ! j ! i) [0 ..< length ?M]) [0 ..< length ys]"
    using assms by (intro transpose_rectangle) auto
  also have "\<dots> = map (\<lambda>i. map (\<lambda>x. f x (ys ! i)) xs) [0 ..< length ys]"
  proof (rule map_cong [OF refl])
    fix i assume "i \<in> set [0 ..< length ys]"
    then have i: "i < length ys" by simp
    show "map (\<lambda>j. ?M ! j ! i) [0 ..< length ?M] = map (\<lambda>x. f x (ys ! i)) xs"
      using i by (intro nth_equalityI) simp_all
  qed
  also have "\<dots> = map (\<lambda>y. map (\<lambda>x. f x y) xs) ys"
    by (rule map_upt_nth)
  finally show ?thesis .
qed

lemma reshape_concat:
  "length M = r \<Longrightarrow> \<forall>row\<in>set M. length row = k \<Longrightarrow> reshape r k (concat M) = M"
proof (induction M arbitrary: r)
  case Nil
  then show ?case by (simp add: reshape_def)
next
  case (Cons row M)
  then obtain r' where r: "r = Suc r'" and len: "length M = r'" by auto
  have IH: "reshape r' k (concat M) = M" using Cons.IH [OF len] Cons.prems(2) by simp
  have row: "length row = k" using Cons.prems(2) by simp
  have "reshape r k (concat (row # M))
      = take k (row @ concat M) # map (\<lambda>i. take k (drop (Suc i * k) (row @ concat M))) [0 ..< r']"
    unfolding reshape_def r by (simp add: upt_conv_Cons map_Suc_upt [symmetric] del: upt_Suc)
  also have "\<dots> = row # map (\<lambda>i. take k (drop (i * k) (concat M))) [0 ..< r']"
    using row by simp
  also have "\<dots> = row # M" using IH by (simp add: reshape_def)
  finally show ?case .
qed

lemma mat2_map_map:
  "mat2 f (map (\<lambda>n. map (A n) xs) ns) (map (\<lambda>n. map (B n) xs) ns)
     = map (\<lambda>n. map (\<lambda>x. f (A n x) (B n x)) xs) ns"
  by (simp add: mat2_def map2_map_map)

lemma sum_axis0_map_map:
  "ns \<noteq> [] \<Longrightarrow> sum_axis0 (map (\<lambda>n. map (\<lambda>x. F n x) xs) ns)
      = map (\<lambda>x. sum_list (map (\<lambda>n. F n x) ns)) xs"
  by (simp add: sum_axis0_def transpose_map_map o_def)

subsection \<open>The table of \<open>LISA_SNR\<close> in closed form\<close>

text \<open>
  Row by row, the table of line 190: the harmonic matrices of lines 179 to 186 are all
  indexed by (harmonic, eccentric source), so that the column sums of line 188 land on
  the sources they belong to.
\<close>

lemma iloc_map:
  "\<forall>i\<in>set ind. i < length xs \<Longrightarrow> iloc (map f xs) ind = map (\<lambda>i. f (xs ! i)) ind"
  by (simp add: iloc_def)

lemma np_where_in_range: "\<forall>i\<in>set (np_where (map P xs)). i < length xs"
  by (simp add: set_np_where)

lemma map2_same: "map2 f (map g xs) xs = map (\<lambda>x. f (g x) x) xs"
  by (induction xs) simp_all


lemma SNR_dat_closed_form:
  assumes "(\<exists>b\<in>set cat. ecc b > 0.1) \<longrightarrow> 2 \<le> N"
  shows "SNR_dat LISA_psd jv cat N Tobs =
    Inr (map (\<lambda>b. \<lparr>gw_freq = (if ecc b > 0.1 then peak_gw_freq (m1 b) (m2 b) (ecc b) (porb b)
                                else 2 / porb b),
                    SNR = (if ecc b > 0.1
                           then sqrt (\<Sum>n\<leftarrow>[1 .. N - 1].
                                  (h_0 (m_chirp (m1 b) (m2 b)) (dist b) (porb b)) ^ 2 * Tobs
                                    * g_spec jv n (ecc b) / (LISA_psd (of_int n / porb b)) ^ 2)
                           else (h_0 (m_chirp (m1 b) (m2 b)) (dist b) (porb b)) ^ 2 * 1 / 4 * Tobs
                                  / (LISA_psd (2 / porb b)) ^ 2)\<rparr>) cat)"
proof -
  define H where "H = (\<lambda>b::binary. (h_0 (m_chirp (m1 b) (m2 b)) (dist b) (porb b)) ^ 2)"
  define C where "C = (\<lambda>b::binary. H b * 1 / 4 * Tobs / (LISA_psd (2 / porb b)) ^ 2)"
  define E where "E = (\<lambda>b::binary. sqrt (\<Sum>n\<leftarrow>[1 .. N - 1].
                           H b * Tobs * g_spec jv n (ecc b) / (LISA_psd (of_int n / porb b)) ^ 2))"
  define PK where "PK = (\<lambda>b::binary. peak_gw_freq (m1 b) (m2 b) (ecc b) (porb b))"
  define ie where "ie = np_where (map (\<lambda>b. ecc b > 0.1) cat)"
  define ic where "ic = np_where (map (\<lambda>b. ecc b \<le> 0.1) cat)"
  define ns where "ns = [1 .. N - 1]"
  define SNR1 where "SNR1 = put (replicate (length cat) 0) ic (map (\<lambda>i. C (cat ! i)) ic)"
  define gw1 where "gw1 = put (replicate (length cat) (0::real)) ic (map (\<lambda>i. 2 / porb (cat ! i)) ic)"
  have ie_range: "\<forall>i\<in>set ie. i < length cat" and ic_range: "\<forall>i\<in>set ic. i < length cat"
    unfolding ie_def ic_def by (rule np_where_in_range)+
  have set_ie: "set ie = {i. i < length cat \<and> ecc (cat ! i) > 0.1}"
    and set_ic: "set ic = {i. i < length cat \<and> ecc (cat ! i) \<le> 0.1}"
    unfolding ie_def ic_def by (rule set_np_where)+
  have h0sq: "map (\<lambda>h. h ^ 2) (map2 (\<lambda>mc b. h_0 mc (dist b) (porb b))
                 (map (\<lambda>b. m_chirp (m1 b) (m2 b)) cat) cat) = map H cat"
    by (simp add: map2_same H_def)
  have circ_vals: "map2 (\<lambda>h p. h * 1 / 4 * Tobs / (LISA_psd (2 / p)) ^ 2)
                     (iloc (map H cat) ic) (iloc (map porb cat) ic) = map (\<lambda>i. C (cat ! i)) ic"
    using ic_range by (simp add: iloc_map map2_map_map C_def)
  have circ_freq: "map (\<lambda>p. 2 / p) (iloc (map porb cat) ic) = map (\<lambda>i. 2 / porb (cat ! i)) ic"
    using ic_range by (simp add: iloc_map)
  have SNR1_nth: "SNR1 ! i = (if ecc (cat ! i) \<le> 0.1 then C (cat ! i) else 0)"
    and gw1_nth: "gw1 ! i = (if ecc (cat ! i) \<le> 0.1 then 2 / porb (cat ! i) else 0)"
    if "i < length cat" for i
    using that unfolding SNR1_def gw1_def by (simp_all add: nth_put_map set_ic)
  have len1: "length SNR1 = length cat" "length gw1 = length cat"
    by (simp_all add: SNR1_def gw1_def length_put)
  show ?thesis
  proof (cases "\<exists>b\<in>set cat. ecc b > 0.1")
    case False
    then have empty: "\<not> length ie > 0" unfolding ie_def by (simp only: np_where_nonempty) simp
    have "SNR_dat LISA_psd jv cat N Tobs = Inr (map2 (\<lambda>f s. \<lparr>gw_freq = f, SNR = s\<rparr>) gw1 SNR1)"
      using empty
      unfolding SNR_dat_def Let_def h0sq circ_vals circ_freq
      unfolding ie_def [symmetric] ic_def [symmetric]
      unfolding circ_vals circ_freq
      by (simp add: SNR1_def gw1_def)
    also have "map2 (\<lambda>f s. \<lparr>gw_freq = f, SNR = s\<rparr>) gw1 SNR1
        = map (\<lambda>b. \<lparr>gw_freq = (if ecc b > 0.1 then PK b else 2 / porb b),
                    SNR = (if ecc b > 0.1 then E b else C b)\<rparr>) cat"
    proof -
      have circ: "ecc (cat ! i) \<le> 0.1" "\<not> ecc (cat ! i) > 0.1" if "i < length cat" for i
        using False nth_mem [OF that] by fastforce+
      show ?thesis
      proof (intro nth_equalityI)
        fix i assume "i < length (map2 (\<lambda>f s. \<lparr>gw_freq = f, SNR = s\<rparr>) gw1 SNR1)"
        then have i: "i < length cat" by (simp add: len1)
        show "map2 (\<lambda>f s. \<lparr>gw_freq = f, SNR = s\<rparr>) gw1 SNR1 ! i
            = map (\<lambda>b. \<lparr>gw_freq = (if ecc b > 0.1 then PK b else 2 / porb b),
                    SNR = (if ecc b > 0.1 then E b else C b)\<rparr>) cat ! i"
          using i circ [OF i] by (simp add: len1 SNR1_nth gw1_nth)
      qed (simp add: len1)
    qed
    finally show ?thesis unfolding E_def C_def PK_def H_def .
  next
    case True
    then have nonempty: "length ie > 0" unfolding ie_def by (simp only: np_where_nonempty)
    then have ie_ne: "ie \<noteq> []" by simp
    from True assms have N: "2 \<le> N" by simp
    then have ns_ne: "ns \<noteq> []" and len_ns: "length ns = nat (N - 1)" by (simp_all add: ns_def)
    have pg: "peters_gfac_series jv (iloc (map ecc cat) ie) N
                = map (\<lambda>n. map (\<lambda>i. g_spec jv n (ecc (cat ! i))) ie) ns"
      using ie_range by (simp add: iloc_map peters_gfac_series_def g_spec_def ns_def o_def)
    have gw: "transpose (map (\<lambda>p. map (\<lambda>n. of_int n / p) ns) (iloc (map porb cat) ie))
                = map (\<lambda>n. map (\<lambda>i. of_int n / porb (cat ! i)) ie) ns"
      using ie_range ie_ne by (simp add: iloc_map o_def transpose_map_map)
    have curve: "reshape (nat (N - 1)) (length ie)
                   (map (\<lambda>f. (LISA_psd f) ^ 2)
                      (concat (map (\<lambda>n. map (\<lambda>i. of_int n / porb (cat ! i)) ie) ns)))
                = map (\<lambda>n. map (\<lambda>i. (LISA_psd (of_int n / porb (cat ! i))) ^ 2) ie) ns"
    proof -
      have "map (\<lambda>f. (LISA_psd f) ^ 2)
              (concat (map (\<lambda>n. map (\<lambda>i. of_int n / porb (cat ! i)) ie) ns))
            = concat (map (\<lambda>n. map (\<lambda>i. (LISA_psd (of_int n / porb (cat ! i))) ^ 2) ie) ns)"
        by (simp add: map_concat o_def)
      then show ?thesis by (simp add: reshape_concat len_ns)
    qed
    have hh: "transpose (map (\<lambda>h. map (\<lambda>one. h * one) (replicate (nat (N - 1)) 1))
                           (iloc (map H cat) ie))
                = map (\<lambda>n. map (\<lambda>i. H (cat ! i) * 1) ie) ns"
    proof -
      have "replicate (nat (N - 1)) (1::real) = map (\<lambda>n. 1) ns"
        by (simp add: map_replicate_const len_ns)
      then show ?thesis using ie_range ie_ne by (simp add: iloc_map o_def transpose_map_map)
    qed
    have sq: "mat2 (\<lambda>x y. x / y)
                (mat2 (\<lambda>x y. x * y)
                   (map (map (\<lambda>h. h * Tobs)) (map (\<lambda>n. map (\<lambda>i. H (cat ! i) * 1) ie) ns))
                   (map (\<lambda>n. map (\<lambda>i. g_spec jv n (ecc (cat ! i))) ie) ns))
                (map (\<lambda>n. map (\<lambda>i. (LISA_psd (of_int n / porb (cat ! i))) ^ 2) ie) ns)
              = map (\<lambda>n. map (\<lambda>i. H (cat ! i) * Tobs * g_spec jv n (ecc (cat ! i))
                                    / (LISA_psd (of_int n / porb (cat ! i))) ^ 2) ie) ns"
      by (simp add: o_def mat2_map_map)
    have ecc_vals: "map sqrt (sum_axis0
              (map (\<lambda>n. map (\<lambda>i. H (cat ! i) * Tobs * g_spec jv n (ecc (cat ! i))
                                    / (LISA_psd (of_int n / porb (cat ! i))) ^ 2) ie) ns))
            = map (\<lambda>i. E (cat ! i)) ie"
      using ns_ne by (simp add: sum_axis0_map_map E_def ns_def o_def)
    have ecc_freq: "map (\<lambda>b. peak_gw_freq (m1 b) (m2 b) (ecc b) (porb b)) (iloc cat ie)
            = map (\<lambda>i. PK (cat ! i)) ie"
      by (simp add: iloc_def PK_def o_def)
    define SNR2 where "SNR2 = put SNR1 ie (map (\<lambda>i. E (cat ! i)) ie)"
    define gw2 where "gw2 = put gw1 ie (map (\<lambda>i. PK (cat ! i)) ie)"
    have "SNR_dat LISA_psd jv cat N Tobs = Inr (map2 (\<lambda>f s. \<lparr>gw_freq = f, SNR = s\<rparr>) gw2 SNR2)"
      using nonempty N
      unfolding SNR_dat_def Let_def h0sq
      unfolding ie_def [symmetric] ic_def [symmetric] ns_def [symmetric]
      unfolding circ_vals circ_freq pg gw curve hh sq ecc_vals ecc_freq
      by (simp add: SNR1_def gw1_def SNR2_def gw2_def)
    also have "map2 (\<lambda>f s. \<lparr>gw_freq = f, SNR = s\<rparr>) gw2 SNR2
        = map (\<lambda>b. \<lparr>gw_freq = (if ecc b > 0.1 then PK b else 2 / porb b),
                    SNR = (if ecc b > 0.1 then E b else C b)\<rparr>) cat"
    proof (intro nth_equalityI)
      show "length (map2 (\<lambda>f s. \<lparr>gw_freq = f, SNR = s\<rparr>) gw2 SNR2) = length (map (\<lambda>b. \<lparr>gw_freq = (if ecc b > 0.1 then PK b else 2 / porb b),
                    SNR = (if ecc b > 0.1 then E b else C b)\<rparr>) cat)"
        by (simp add: SNR2_def gw2_def length_put len1)
    next
      fix i assume "i < length (map2 (\<lambda>f s. \<lparr>gw_freq = f, SNR = s\<rparr>) gw2 SNR2)"
      then have i: "i < length cat" by (simp add: SNR2_def gw2_def length_put len1)
      have "SNR2 ! i = (if ecc (cat ! i) > 0.1 then E (cat ! i) else C (cat ! i))"
        "gw2 ! i = (if ecc (cat ! i) > 0.1 then PK (cat ! i) else 2 / porb (cat ! i))"
        using i unfolding SNR2_def gw2_def
        by (simp_all add: nth_put_map len1 set_ie SNR1_nth gw1_nth)
      then show "map2 (\<lambda>f s. \<lparr>gw_freq = f, SNR = s\<rparr>) gw2 SNR2 ! i
          = map (\<lambda>b. \<lparr>gw_freq = (if ecc b > 0.1 then PK b else 2 / porb b),
                    SNR = (if ecc b > 0.1 then E b else C b)\<rparr>) cat ! i"
        using i by (simp add: SNR2_def gw2_def length_put len1)
    qed
    finally show ?thesis unfolding E_def C_def PK_def H_def .
  qed
qed

subsection \<open>Bounds on the strain\<close>

text \<open>
  The strain is positive for positive chirp mass, distance and period, and bounded below
  by a rational expression when its inner factor is at most 1. For the scenario source
  this gives \<open>h0 \<ge> 4 * 10\<^sup>-\<^sup>2\<^sup>5\<close>, enough for an SNR value above 1 against a flat
  noise curve of \<open>10\<^sup>-\<^sup>2\<^sup>1\<close>.
\<close>

lemma m_chirp_equal_mass:
  assumes "0 < m"
  shows "m_chirp m m = m / 2 powr (1 / 5)"
proof -
  have "(m * m) powr (3 / 5) = m powr (3 / 5) * m powr (3 / 5)"
    using assms by (simp add: powr_mult)
  also have "\<dots> = m powr (3 / 5 + 3 / 5)"
    by (simp only: powr_add)
  also have "\<dots> = m powr (1 / 5 + 1)" by simp
  also have "\<dots> = m powr (1 / 5) * m powr 1"
    by (simp only: powr_add)
  also have "\<dots> = m powr (1 / 5) * m" using assms by simp
  finally have num: "(m * m) powr (3 / 5) = m powr (1 / 5) * m" .
  have den: "(m + m) powr (1 / 5) = 2 powr (1 / 5) * m powr (1 / 5)"
  proof -
    have "m + m = 2 * m" by simp
    then show ?thesis using assms by (simp add: powr_mult)
  qed
  have "m powr (1 / 5) > 0" using assms by simp
  then show ?thesis unfolding m_chirp_def num den by (simp add: field_simps)
qed

lemma m_chirp_equal_mass_bounds:
  assumes "0 < m"
  shows "m / 2 \<le> m_chirp m m" "m_chirp m m \<le> m"
proof -
  have lo: "(1::real) \<le> 2 powr (1 / 5)" by (rule ge_one_powr_ge_zero) simp_all
  have "(2::real) powr (1 / 5) \<le> 2 powr 1" by (rule powr_mono) simp_all
  then have hi: "(2::real) powr (1 / 5) \<le> 2" by simp
  show "m / 2 \<le> m_chirp m m" "m_chirp m m \<le> m"
    unfolding m_chirp_equal_mass [OF assms] using assms lo hi
    by (simp_all add: field_simps)
qed


lemma G_pos: "0 < G" by (simp add: G_def)
lemma c_pos: "0 < c" by (simp add: c_def)


lemma h_0_lower:
  assumes mc: "0 < lo" "lo \<le> mc" "mc \<le> hi" and d: "0 < d" and p: "0 < p"
    and small: "G / c ^ 3 * 8 * (1 / p) * hi \<le> 1"
  shows "8 * G / c ^ 2 * lo / d * (G / c ^ 3 * 4 * (1 / p) * lo) \<le> h_0 mc d p"
proof -
  define X where "X = G / c ^ 3 * 2 * pi * (1 / p) * mc"
  have K: "0 < G / c ^ 3 * (1 / p)" using G_pos c_pos p by simp
  have mcpos: "0 < mc" using mc by simp
  have Xpos: "0 < X" unfolding X_def using G_pos c_pos p mcpos by simp
  have "X = (G / c ^ 3 * (1 / p)) * (2 * pi * mc)" by (simp add: X_def)
  also have "\<dots> \<le> (G / c ^ 3 * (1 / p)) * (8 * hi)"
  proof (rule mult_left_mono)
    have "2 * pi * mc \<le> 2 * 4 * mc" using pi_less_4 mcpos by simp
    also have "\<dots> \<le> 8 * hi" using mc by simp
    finally show "2 * pi * mc \<le> 8 * hi" .
  qed (use K in simp)
  also have "\<dots> = G / c ^ 3 * 8 * (1 / p) * hi" by simp
  finally have Xle: "X \<le> 1" using small by simp
  have "(G / c ^ 3 * (1 / p)) * (4 * lo) \<le> (G / c ^ 3 * (1 / p)) * (2 * pi * mc)"
  proof (rule mult_left_mono)
    have "4 * lo \<le> 2 * pi * lo" using pi_ge_two mc(1) by simp
    also have "\<dots> \<le> 2 * pi * mc" using mc(2) by simp
    finally show "4 * lo \<le> 2 * pi * mc" .
  qed (use K in simp)
  then have Xge: "G / c ^ 3 * 4 * (1 / p) * lo \<le> X" by (simp add: X_def)
  have "X powr 1 \<le> X powr (2 / 3)"
    by (rule powr_mono') (use Xpos Xle in simp_all)
  then have Xp: "X \<le> X powr (2 / 3)" using Xpos by simp
  have A: "0 \<le> 8 * G / c ^ 2 * lo / d" using G_pos c_pos mc d by simp
  have B: "8 * G / c ^ 2 * lo / d \<le> 8 * G / c ^ 2 * mc / d"
    using G_pos c_pos mc d by (simp add: divide_right_mono)
  have "8 * G / c ^ 2 * lo / d * (G / c ^ 3 * 4 * (1 / p) * lo)
        \<le> 8 * G / c ^ 2 * mc / d * X powr (2 / 3)"
  proof (rule mult_mono [OF B _ _ _])
    show "G / c ^ 3 * 4 * (1 / p) * lo \<le> X powr (2 / 3)" using Xge Xp by simp
    show "0 \<le> 8 * G / c ^ 2 * mc / d" using A B by simp
    show "0 \<le> G / c ^ 3 * 4 * (1 / p) * lo" using G_pos c_pos p mc by simp
  qed
  then show ?thesis by (simp add: h_0_def X_def)
qed

lemma scenario_h_0_lower:
  "4 / 10 ^ 25 \<le> h_0 (m_chirp (0.5 * Msun) (0.5 * Msun)) (1000 * parsec) 1000"
proof -
  define m where "m = 0.5 * Msun"
  have m: "0 < m" by (simp add: m_def Msun_def)
  have "8 * G / c ^ 2 * (m / 2) / (1000 * parsec) * (G / c ^ 3 * 4 * (1 / 1000) * (m / 2))
          \<le> h_0 (m_chirp m m) (1000 * parsec) 1000"
  proof (rule h_0_lower)
    show "0 < m / 2" using m by simp
    show "m / 2 \<le> m_chirp m m" "m_chirp m m \<le> m" using m_chirp_equal_mass_bounds [OF m] .
    show "0 < 1000 * parsec" by (simp add: parsec_def)
    show "(0::real) < 1000" by simp
    show "G / c ^ 3 * 8 * (1 / 1000) * m \<le> 1" by (simp add: G_def c_def m_def Msun_def)
  qed
  moreover have "4 / 10 ^ 25
     \<le> 8 * G / c ^ 2 * (m / 2) / (1000 * parsec) * (G / c ^ 3 * 4 * (1 / 1000) * (m / 2))"
    by (simp add: G_def c_def m_def Msun_def parsec_def)
  ultimately show ?thesis unfolding m_def by linarith
qed

lemma scenario_SNR_gt_1:
  "1 < (h_0 (m_chirp (0.5 * Msun) (0.5 * Msun)) (1000 * parsec) 1000) ^ 2 * 1 / 4
         * (4 * sec_in_year) / (1 / 10 ^ 21) ^ 2"
proof -
  define h where "h = h_0 (m_chirp (0.5 * Msun) (0.5 * Msun)) (1000 * parsec) 1000"
  have "4 / 10 ^ 25 \<le> h" unfolding h_def by (rule scenario_h_0_lower)
  then have "(4 / 10 ^ 25) ^ 2 \<le> h ^ 2" by (rule power_mono) simp
  then have "(4 / 10 ^ 25) ^ 2 * 1 / 4 * (4 * sec_in_year) / (1 / 10 ^ 21) ^ 2
            \<le> h ^ 2 * 1 / 4 * (4 * sec_in_year) / (1 / 10 ^ 21) ^ 2"
    by (intro divide_right_mono mult_right_mono) (simp_all add: sec_in_year_def)
  moreover have "1 < (4 / 10 ^ 25) ^ 2 * 1 / 4 * (4 * sec_in_year) / (1 / 10 ^ 21 :: real) ^ 2"
    by (simp add: sec_in_year_def power_divide)
  ultimately show ?thesis unfolding h_def by linarith
qed

subsection \<open>\<open>LISA_SNR\<close> and \<open>LISA_PSD\<close>\<close>

lemma sum_list_upto: "(\<Sum>n\<leftarrow>[1 .. k]. f n) = (\<Sum>n = 1 .. k. f n)" for f :: "int \<Rightarrow> real"
  by (simp add: sum_list_distinct_conv_sum_set)

lemma LISA_SNR_of_SNR_dat:
  "SNR_dat LISA_psd jv cat N Tobs = Inr tab \<Longrightarrow>
   LISA_SNR LISA_psd jv cat N Tobs
     = Inr (if 1 < length tab then filter (\<lambda>r. 1 < SNR r) tab else [])"
  by (simp add: LISA_SNR_def)

lemma h_0_eq_spec: "h_0 (m_chirp ma mb) d p = h0_spec (chirp_mass_spec ma mb) p d"
proof -
  have arg: "G / c ^ 3 * 2 * pi * (1 / p) * m_chirp ma mb = G / c ^ 3 * (2 * pi / p) * m_chirp ma mb"
    by simp
  show ?thesis
    unfolding h_0_def h0_spec_def chirp_mass_spec_def m_chirp_def [symmetric] arg by simp
qed

lemma peak_gw_freq_closed_form:
  "peak_gw_freq ma mb e p
     = sqrt (G * (ma + mb)) / pi * (1 + e) powr 1.1954
         / ((G * (ma + mb) * p ^ 2 / (4 * pi ^ 2)) powr (1 / 3) * (1 - e) ^ 2) powr 1.5"
proof -
  have arg: "G / (4 * pi ^ 2) * p ^ 2 * (ma + mb) = G * (ma + mb) * p ^ 2 / (4 * pi ^ 2)"
    by simp
  show ?thesis unfolding peak_gw_freq_def Let_def arg by simp
qed

text \<open>
  Claim C2. For an eccentric source (\<open>ecc > 0.1\<close>, with \<open>n_harmonic \<ge> 2\<close>) the
  row of the table built by \<open>LISA_SNR\<close> holds, as SNR, the square root of the sum over
  the harmonics \<open>n = 1 .. n_harmonic - 1\<close> of
  \<open>h0\<^sup>2 * Tobs * g(n, ecc) / noise(n / porb)\<^sup>2\<close>, with \<open>h0\<close> the strain of the
  specification for this source and the noise curve evaluated at \<open>n / porb\<close>, and as
  frequency the closed form
  \<open>sqrt(G (m1 + m2)) / pi * (1 + ecc)^1.1954 / (a (1 - ecc)\<^sup>2)^1.5\<close> with the
  separation \<open>a = (G (m1 + m2) porb\<^sup>2 / (4 pi\<^sup>2))^(1/3)\<close> of Kepler's third law. The
  returned table is that table after the threshold, so the row is reported whenever the
  catalog has more than one source and the row's SNR exceeds 1.
\<close>

theorem LISA_SNR_eccentric_row:
  assumes "i < length cat" "ecc (cat ! i) > 0.1" "2 \<le> N"
  shows "\<not> isl (SNR_dat LISA_psd jv cat N Tobs)
       \<and> length (projr (SNR_dat LISA_psd jv cat N Tobs)) = length cat
       \<and> SNR (projr (SNR_dat LISA_psd jv cat N Tobs) ! i)
           = sqrt (\<Sum>n = 1 .. N - 1.
                     (h0_spec (chirp_mass_spec (m1 (cat ! i)) (m2 (cat ! i)))
                        (porb (cat ! i)) (dist (cat ! i))) ^ 2
                       * Tobs * g_spec jv n (ecc (cat ! i))
                       / (LISA_psd (of_int n / porb (cat ! i))) ^ 2)
       \<and> gw_freq (projr (SNR_dat LISA_psd jv cat N Tobs) ! i)
           = sqrt (G * (m1 (cat ! i) + m2 (cat ! i))) / pi * (1 + ecc (cat ! i)) powr 1.1954
               / ((G * (m1 (cat ! i) + m2 (cat ! i)) * porb (cat ! i) ^ 2 / (4 * pi ^ 2)) powr (1 / 3)
                    * (1 - ecc (cat ! i)) ^ 2) powr 1.5
       \<and> LISA_SNR LISA_psd jv cat N Tobs
           = Inr (if 1 < length cat
                  then filter (\<lambda>r. 1 < SNR r) (projr (SNR_dat LISA_psd jv cat N Tobs))
                  else [])
       \<and> (1 < length cat \<and> 1 < SNR (projr (SNR_dat LISA_psd jv cat N Tobs) ! i)
            \<longrightarrow> projr (SNR_dat LISA_psd jv cat N Tobs) ! i
                  \<in> set (projr (LISA_SNR LISA_psd jv cat N Tobs)))"
proof -
  have cf: "SNR_dat LISA_psd jv cat N Tobs = Inr (map (\<lambda>b. \<lparr>gw_freq = (if ecc b > 0.1 then peak_gw_freq (m1 b) (m2 b) (ecc b) (porb b)
                                else 2 / porb b),
                    SNR = (if ecc b > 0.1
                           then sqrt (\<Sum>n\<leftarrow>[1 .. N - 1].
                                  (h_0 (m_chirp (m1 b) (m2 b)) (dist b) (porb b)) ^ 2 * Tobs
                                    * g_spec jv n (ecc b) / (LISA_psd (of_int n / porb b)) ^ 2)
                           else (h_0 (m_chirp (m1 b) (m2 b)) (dist b) (porb b)) ^ 2 * 1 / 4 * Tobs
                                  / (LISA_psd (2 / porb b)) ^ 2)\<rparr>) cat)"
    by (rule SNR_dat_closed_form) (simp add: assms(3))
  define tab where "tab = projr (SNR_dat LISA_psd jv cat N Tobs)"
  have ok: "\<not> isl (SNR_dat LISA_psd jv cat N Tobs)" and len: "length tab = length cat"
    unfolding tab_def cf by simp_all
  have snr: "SNR (tab ! i)
           = sqrt (\<Sum>n = 1 .. N - 1.
                     (h0_spec (chirp_mass_spec (m1 (cat ! i)) (m2 (cat ! i)))
                        (porb (cat ! i)) (dist (cat ! i))) ^ 2
                       * Tobs * g_spec jv n (ecc (cat ! i))
                       / (LISA_psd (of_int n / porb (cat ! i))) ^ 2)"
    unfolding tab_def cf using assms(1,2) by (simp add: sum_list_upto h_0_eq_spec)
  have freq: "gw_freq (tab ! i)
           = sqrt (G * (m1 (cat ! i) + m2 (cat ! i))) / pi * (1 + ecc (cat ! i)) powr 1.1954
               / ((G * (m1 (cat ! i) + m2 (cat ! i)) * porb (cat ! i) ^ 2 / (4 * pi ^ 2)) powr (1 / 3)
                    * (1 - ecc (cat ! i)) ^ 2) powr 1.5"
    unfolding tab_def cf using assms(1,2) by (simp add: peak_gw_freq_closed_form)
  have res: "LISA_SNR LISA_psd jv cat N Tobs
           = Inr (if 1 < length cat then filter (\<lambda>r. 1 < SNR r) tab else [])"
    unfolding tab_def LISA_SNR_of_SNR_dat [OF cf] unfolding cf by simp
  have rep: "tab ! i \<in> set (projr (LISA_SNR LISA_psd jv cat N Tobs))"
    if "1 < length cat \<and> 1 < SNR (tab ! i)"
  proof -
    have "tab ! i \<in> set tab" using assms(1) len by simp
    with that show ?thesis unfolding res by simp
  qed
  from ok len snr freq res rep show ?thesis unfolding tab_def by blast
qed

text \<open>
  The witness is a catalog of three different sources, one circular and two eccentric,
  with a noise curve that depends on the frequency. The row of the third source is
  computed from the parameters of the third source and is in the returned table.
\<close>

lemma g_spec_const_one:
  assumes "n \<noteq> 0"
  shows "g_spec (\<lambda>k x. 1) n e = 1 / 6"
proof -
  have n: "real_of_int n \<noteq> 0" using assms by simp
  have "g_spec (\<lambda>k x. 1) n e
      = (of_int n ^ 4 / 32) * ((2 / of_int n) ^ 2 + 4 / (3 * of_int n ^ 2)) / of_int n ^ 2"
    by (simp add: g_spec_def)
  also have "\<dots> = 1 / 6" using n by (simp add: field_simps power2_eq_square power4_eq_xxxx)
  finally show ?thesis .
qed

lemma second_source_h_0_lower:
  "4 / 10 ^ 25 \<le> h_0 (m_chirp Msun Msun) (2000 * parsec) 2000"
proof -
  have m: "0 < Msun" by (simp add: Msun_def)
  have "8 * G / c ^ 2 * (Msun / 2) / (2000 * parsec) * (G / c ^ 3 * 4 * (1 / 2000) * (Msun / 2))
          \<le> h_0 (m_chirp Msun Msun) (2000 * parsec) 2000"
  proof (rule h_0_lower)
    show "0 < Msun / 2" using m by simp
    show "Msun / 2 \<le> m_chirp Msun Msun" "m_chirp Msun Msun \<le> Msun"
      using m_chirp_equal_mass_bounds [OF m] .
    show "0 < 2000 * parsec" by (simp add: parsec_def)
    show "(0::real) < 2000" by simp
    show "G / c ^ 3 * 8 * (1 / 2000) * Msun \<le> 1" by (simp add: G_def c_def Msun_def)
  qed
  moreover have "4 / 10 ^ 25
     \<le> 8 * G / c ^ 2 * (Msun / 2) / (2000 * parsec) * (G / c ^ 3 * 4 * (1 / 2000) * (Msun / 2))"
    by (simp add: G_def c_def Msun_def parsec_def)
  ultimately show ?thesis by linarith
qed

lemma second_source_term_ge_1:
  assumes "1 \<le> n" "n \<le> 9"
  shows "1 \<le> (h0_spec (chirp_mass_spec Msun Msun) 2000 (2000 * parsec)) ^ 2 * (4 * sec_in_year)
               * g_spec (\<lambda>k x. 1) n 0.5 / ((1 + of_int n / 2000) / 10 ^ 21) ^ 2"
proof -
  define h where "h = h0_spec (chirp_mass_spec Msun Msun) 2000 (2000 * parsec)"
  define v where "v = ((1 + real_of_int n / 2000) / 10 ^ 21) ^ 2"
  have "4 / 10 ^ 25 \<le> h"
    unfolding h_def h_0_eq_spec [symmetric] by (rule second_source_h_0_lower)
  then have h2: "(4 / 10 ^ 25) ^ 2 \<le> h ^ 2" by (rule power_mono) simp
  have g: "g_spec (\<lambda>k x. 1) n 0.5 = 1 / 6" using assms by (intro g_spec_const_one) simp
  have "(1 + real_of_int n / 2000) / 10 ^ 21 \<le> (1 + 9 / 2000) / 10 ^ 21"
    using assms by (simp add: divide_right_mono)
  moreover have "0 \<le> (1 + real_of_int n / 2000) / 10 ^ 21" using assms by simp
  ultimately have "v \<le> ((1 + 9 / 2000) / 10 ^ 21) ^ 2"
    unfolding v_def by (rule power_mono)
  moreover have vpos: "0 < v" unfolding v_def using assms by simp
  moreover have "((1 + 9 / 2000) / 10 ^ 21 :: real) ^ 2 \<le> (4 / 10 ^ 25) ^ 2 * (4 * sec_in_year) * (1 / 6)"
    by (simp add: sec_in_year_def power_divide)
  moreover have "(4 / 10 ^ 25) ^ 2 * (4 * sec_in_year) * (1 / 6) \<le> h ^ 2 * (4 * sec_in_year) * (1 / 6)"
    using h2 by (intro mult_right_mono) (simp_all add: sec_in_year_def)
  ultimately have "v \<le> h ^ 2 * (4 * sec_in_year) * (1 / 6)" by linarith
  then have "1 \<le> h ^ 2 * (4 * sec_in_year) * (1 / 6) / v"
    using vpos by (simp add: le_divide_eq)
  then show ?thesis unfolding h_def v_def g .
qed

theorem LISA_SNR_eccentric_row_witness:
  "(let cat = [scenario 0, scenario 0.9,
               \<lparr>m1 = Msun, m2 = Msun, porb = 2000, ecc = 0.5, dist = 2000 * parsec\<rparr>];
        tab = projr (SNR_dat (\<lambda>f. (1 + f) / 10 ^ 21) (\<lambda>k x. 1) cat 10 (4 * sec_in_year))
    in 2 < length cat \<and> ecc (cat ! 2) > 0.1 \<and> (2::int) \<le> 10
       \<and> \<not> isl (SNR_dat (\<lambda>f. (1 + f) / 10 ^ 21) (\<lambda>k x. 1) cat 10 (4 * sec_in_year))
       \<and> length tab = 3
       \<and> SNR (tab ! 2)
           = sqrt (\<Sum>n = 1 .. 9.
                     (h0_spec (chirp_mass_spec Msun Msun) 2000 (2000 * parsec)) ^ 2
                       * (4 * sec_in_year) * g_spec (\<lambda>k x. 1) n 0.5
                       / ((1 + of_int n / 2000) / 10 ^ 21) ^ 2)
       \<and> gw_freq (tab ! 2)
           = sqrt (G * (Msun + Msun)) / pi * (1 + 0.5) powr 1.1954
               / ((G * (Msun + Msun) * 2000 ^ 2 / (4 * pi ^ 2)) powr (1 / 3) * (1 - 0.5) ^ 2) powr 1.5
       \<and> 1 < SNR (tab ! 2)
       \<and> tab ! 2 \<in> set (projr (LISA_SNR (\<lambda>f. (1 + f) / 10 ^ 21) (\<lambda>k x. 1) cat 10
                                  (4 * sec_in_year))))"
proof -
  define cat where "cat = [scenario 0, scenario 0.9,
               \<lparr>m1 = Msun, m2 = Msun, porb = 2000, ecc = 0.5, dist = 2000 * parsec\<rparr>]"
  define tab where "tab = projr (SNR_dat (\<lambda>f. (1 + f) / 10 ^ 21) (\<lambda>k x. 1) cat 10 (4 * sec_in_year))"
  have i: "2 < length cat" and e: "ecc (cat ! 2) > 0.1" and N: "(2::int) \<le> 10"
    by (simp_all add: cat_def)
  note row = LISA_SNR_eccentric_row [OF i e N, of "\<lambda>f. (1 + f) / 10 ^ 21" "\<lambda>k x. 1" "4 * sec_in_year",
      folded tab_def]
  from row have ok: "\<not> isl (SNR_dat (\<lambda>f. (1 + f) / 10 ^ 21) (\<lambda>k x. 1) cat 10 (4 * sec_in_year))"
    by blast
  from row have len: "length tab = 3" by (simp add: cat_def)
  from row have snr: "SNR (tab ! 2)
           = sqrt (\<Sum>n = 1 .. 9.
                     (h0_spec (chirp_mass_spec Msun Msun) 2000 (2000 * parsec)) ^ 2
                       * (4 * sec_in_year) * g_spec (\<lambda>k x. 1) n 0.5
                       / ((1 + of_int n / 2000) / 10 ^ 21) ^ 2)"
    by (simp add: cat_def)
  from row have freq: "gw_freq (tab ! 2)
           = sqrt (G * (Msun + Msun)) / pi * (1 + 0.5) powr 1.1954
               / ((G * (Msun + Msun) * 2000 ^ 2 / (4 * pi ^ 2)) powr (1 / 3) * (1 - 0.5) ^ 2) powr 1.5"
    by (simp add: cat_def)
  have "real (card {1 .. 9 :: int}) * 1
          \<le> (\<Sum>n = 1 .. 9. (h0_spec (chirp_mass_spec Msun Msun) 2000 (2000 * parsec)) ^ 2
                       * (4 * sec_in_year) * g_spec (\<lambda>k x. 1) n 0.5
                       / ((1 + of_int n / 2000) / 10 ^ 21) ^ 2)"
  proof (rule sum_bounded_below)
    fix n :: int assume "n \<in> {1 .. 9}"
    then have "1 \<le> n" "n \<le> 9" by simp_all
    then show "1 \<le> (h0_spec (chirp_mass_spec Msun Msun) 2000 (2000 * parsec)) ^ 2
                       * (4 * sec_in_year) * g_spec (\<lambda>k x. 1) n 0.5
                       / ((1 + of_int n / 2000) / 10 ^ 21) ^ 2"
      by (rule second_source_term_ge_1)
  qed
  then have "1 < (\<Sum>n = 1 .. 9. (h0_spec (chirp_mass_spec Msun Msun) 2000 (2000 * parsec)) ^ 2
                       * (4 * sec_in_year) * g_spec (\<lambda>k x. 1) n 0.5
                       / ((1 + of_int n / 2000) / 10 ^ 21) ^ 2)"
    by simp
  then have big: "1 < SNR (tab ! 2)" unfolding snr by simp
  from row i big have rep: "tab ! 2 \<in> set (projr (LISA_SNR (\<lambda>f. (1 + f) / 10 ^ 21) (\<lambda>k x. 1) cat 10
                                  (4 * sec_in_year)))"
    by simp
  from i e N ok len snr freq big rep show ?thesis
    unfolding Let_def cat_def [symmetric] tab_def [symmetric] by blast
qed

lemma scenario_SNR_dat:
  "SNR_dat (\<lambda>f. 1 / 10 ^ 21) jv (replicate k (scenario 0)) N (4 * sec_in_year)
     = Inr (replicate k
         \<lparr>gw_freq = 2 / 1000,
          SNR = (h_0 (m_chirp (0.5 * Msun) (0.5 * Msun)) (1000 * parsec) 1000) ^ 2 * 1 / 4
                  * (4 * sec_in_year) / (1 / 10 ^ 21) ^ 2\<rparr>)"
proof -
  have "SNR_dat (\<lambda>f. 1 / 10 ^ 21) jv (replicate k (scenario 0)) N (4 * sec_in_year) = Inr (map (\<lambda>b. \<lparr>gw_freq = (if ecc b > 0.1 then peak_gw_freq (m1 b) (m2 b) (ecc b) (porb b)
                                else 2 / porb b),
                    SNR = (if ecc b > 0.1
                           then sqrt (\<Sum>n\<leftarrow>[1 .. N - 1].
                                  (h_0 (m_chirp (m1 b) (m2 b)) (dist b) (porb b)) ^ 2 * (4 * sec_in_year)
                                    * g_spec jv n (ecc b) / ((\<lambda>f. 1 / 10 ^ 21) (of_int n / porb b)) ^ 2)
                           else (h_0 (m_chirp (m1 b) (m2 b)) (dist b) (porb b)) ^ 2 * 1 / 4 * (4 * sec_in_year)
                                  / ((\<lambda>f. 1 / 10 ^ 21) (2 / porb b)) ^ 2)\<rparr>) (replicate k (scenario 0)))"
    by (rule SNR_dat_closed_form) simp
  then show ?thesis by simp
qed

text \<open>
  Claim C1. The claim says that every source with SNR above 1.0 contributes a row and
  that a catalog of a single circular source above the threshold yields a one-row table
  with \<open>gw_freq = 2 / 1000\<close>. On the scenario source, with a flat noise curve of
  \<open>10\<^sup>-\<^sup>2\<^sup>1\<close>, the table before the threshold has that row and its SNR exceeds 1, but
  \<open>LISA_SNR\<close> returns the empty table: line 191 tests the number of rows of the mask,
  which is 1, against \<open>> 1\<close>.
\<close>

theorem LISA_SNR_single_source_dropped:
  "SNR_dat (\<lambda>f. 1 / 10 ^ 21) jv [scenario 0] 10 (4 * sec_in_year)
     = Inr [\<lparr>gw_freq = 2 / 1000,
             SNR = (h_0 (m_chirp (0.5 * Msun) (0.5 * Msun)) (1000 * parsec) 1000) ^ 2 * 1 / 4
                     * (4 * sec_in_year) / (1 / 10 ^ 21) ^ 2\<rparr>]
   \<and> 1 < (h_0 (m_chirp (0.5 * Msun) (0.5 * Msun)) (1000 * parsec) 1000) ^ 2 * 1 / 4
            * (4 * sec_in_year) / (1 / 10 ^ 21) ^ 2
   \<and> LISA_SNR (\<lambda>f. 1 / 10 ^ 21) jv [scenario 0] 10 (4 * sec_in_year) = Inr []"
proof -
  have dat: "SNR_dat (\<lambda>f. 1 / 10 ^ 21) jv [scenario 0] 10 (4 * sec_in_year)
     = Inr [\<lparr>gw_freq = 2 / 1000,
             SNR = (h_0 (m_chirp (0.5 * Msun) (0.5 * Msun)) (1000 * parsec) 1000) ^ 2 * 1 / 4
                     * (4 * sec_in_year) / (1 / 10 ^ 21) ^ 2\<rparr>]"
    using scenario_SNR_dat [of jv 1 10] by simp
  have "LISA_SNR (\<lambda>f. 1 / 10 ^ 21) jv [scenario 0] 10 (4 * sec_in_year) = Inr []"
    unfolding LISA_SNR_of_SNR_dat [OF dat] by simp
  with dat scenario_SNR_gt_1 show ?thesis by blast
qed


lemma LISA_SNR_circular_row:
  assumes "i < length cat" "ecc (cat ! i) \<le> 0.1" "(\<exists>b\<in>set cat. ecc b > 0.1) \<longrightarrow> 2 \<le> N"
  shows "\<not> isl (SNR_dat LISA_psd jv cat N Tobs)
       \<and> SNR (projr (SNR_dat LISA_psd jv cat N Tobs) ! i)
           = (h_0 (m_chirp (m1 (cat ! i)) (m2 (cat ! i))) (dist (cat ! i)) (porb (cat ! i))) ^ 2
               * 1 / 4 * Tobs / (LISA_psd (2 / porb (cat ! i))) ^ 2
       \<and> gw_freq (projr (SNR_dat LISA_psd jv cat N Tobs) ! i) = 2 / porb (cat ! i)"
  unfolding SNR_dat_closed_form [OF assms(3)]
  using assms(1,2) by simp

text \<open>
  Claim C3. The claim says that the SNR reported for a circular source satisfies
  \<open>SNR\<^sup>2 = h0\<^sup>2 * (1/4) * Tobs / noise(2 / porb)\<^sup>2\<close>. Line 175 stores that
  expression itself, without the square root that line 188 takes for eccentric sources
  (lemma \<open>LISA_SNR_circular_row\<close>). On a catalog of two scenario sources both rows are
  returned with the expression as SNR, and its square differs from the expression. The
  frequency \<open>2 / porb\<close> is as claimed.
\<close>

theorem LISA_SNR_circular_not_rooted:
  "LISA_SNR (\<lambda>f. 1 / 10 ^ 21) jv [scenario 0, scenario 0] 10 (4 * sec_in_year)
     = Inr [\<lparr>gw_freq = 2 / 1000,
             SNR = (h_0 (m_chirp (0.5 * Msun) (0.5 * Msun)) (1000 * parsec) 1000) ^ 2 * 1 / 4
                     * (4 * sec_in_year) / (1 / 10 ^ 21) ^ 2\<rparr>,
            \<lparr>gw_freq = 2 / 1000,
             SNR = (h_0 (m_chirp (0.5 * Msun) (0.5 * Msun)) (1000 * parsec) 1000) ^ 2 * 1 / 4
                     * (4 * sec_in_year) / (1 / 10 ^ 21) ^ 2\<rparr>]
   \<and> ((h_0 (m_chirp (0.5 * Msun) (0.5 * Msun)) (1000 * parsec) 1000) ^ 2 * 1 / 4
          * (4 * sec_in_year) / (1 / 10 ^ 21) ^ 2) ^ 2
       \<noteq> (h_0 (m_chirp (0.5 * Msun) (0.5 * Msun)) (1000 * parsec) 1000) ^ 2 * 1 / 4
          * (4 * sec_in_year) / (1 / 10 ^ 21) ^ 2"
proof -
  define E where "E = (h_0 (m_chirp (0.5 * Msun) (0.5 * Msun)) (1000 * parsec) 1000) ^ 2 * 1 / 4
                     * (4 * sec_in_year) / (1 / 10 ^ 21) ^ 2"
  have E: "1 < E" unfolding E_def by (rule scenario_SNR_gt_1)
  have dat: "SNR_dat (\<lambda>f. 1 / 10 ^ 21) jv [scenario 0, scenario 0] 10 (4 * sec_in_year)
     = Inr [\<lparr>gw_freq = 2 / 1000, SNR = E\<rparr>, \<lparr>gw_freq = 2 / 1000, SNR = E\<rparr>]"
    unfolding E_def using scenario_SNR_dat [of jv 2 10] by (simp add: numeral_2_eq_2)
  have res: "LISA_SNR (\<lambda>f. 1 / 10 ^ 21) jv [scenario 0, scenario 0] 10 (4 * sec_in_year)
     = Inr [\<lparr>gw_freq = 2 / 1000, SNR = E\<rparr>, \<lparr>gw_freq = 2 / 1000, SNR = E\<rparr>]"
    unfolding LISA_SNR_of_SNR_dat [OF dat] using E by simp
  have "E * 1 < E * E" using E by (intro mult_strict_left_mono) simp_all
  then have "E * E \<noteq> E" by linarith
  then have "E ^ 2 \<noteq> E" unfolding power2_eq_square .
  with res show ?thesis unfolding E_def by blast
qed

text \<open>
  Claim C6. Every row of the table returned by \<open>LISA_SNR\<close> has an SNR strictly
  above 1.0.
\<close>

theorem LISA_SNR_threshold:
  assumes "LISA_SNR LISA_psd jv cat N Tobs = Inr tab" "r \<in> set tab"
  shows "1 < SNR r"
  using assms by (auto simp: LISA_SNR_def split: sum.splits if_splits)

theorem LISA_SNR_threshold_witness:
  "LISA_SNR (\<lambda>f. 1 / 10 ^ 21) (\<lambda>k x. 0) [scenario 0, scenario 0] 10 (4 * sec_in_year)
     = Inr [\<lparr>gw_freq = 2 / 1000,
             SNR = (h_0 (m_chirp (0.5 * Msun) (0.5 * Msun)) (1000 * parsec) 1000) ^ 2 * 1 / 4
                     * (4 * sec_in_year) / (1 / 10 ^ 21) ^ 2\<rparr>,
            \<lparr>gw_freq = 2 / 1000,
             SNR = (h_0 (m_chirp (0.5 * Msun) (0.5 * Msun)) (1000 * parsec) 1000) ^ 2 * 1 / 4
                     * (4 * sec_in_year) / (1 / 10 ^ 21) ^ 2\<rparr>]
   \<and> 1 < SNR \<lparr>gw_freq = 2 / 1000,
             SNR = (h_0 (m_chirp (0.5 * Msun) (0.5 * Msun)) (1000 * parsec) 1000) ^ 2 * 1 / 4
                     * (4 * sec_in_year) / (1 / 10 ^ 21) ^ 2\<rparr>"
proof -
  define E where "E = (h_0 (m_chirp (0.5 * Msun) (0.5 * Msun)) (1000 * parsec) 1000) ^ 2 * 1 / 4
                     * (4 * sec_in_year) / (1 / 10 ^ 21) ^ 2"
  have E: "1 < E" unfolding E_def by (rule scenario_SNR_gt_1)
  have dat: "SNR_dat (\<lambda>f. 1 / 10 ^ 21) (\<lambda>k x. 0) [scenario 0, scenario 0] 10 (4 * sec_in_year)
     = Inr [\<lparr>gw_freq = 2 / 1000, SNR = E\<rparr>, \<lparr>gw_freq = 2 / 1000, SNR = E\<rparr>]"
    unfolding E_def using scenario_SNR_dat [of "\<lambda>k x. 0" 2 10] by (simp add: numeral_2_eq_2)
  have res: "LISA_SNR (\<lambda>f. 1 / 10 ^ 21) (\<lambda>k x. 0) [scenario 0, scenario 0] 10 (4 * sec_in_year)
     = Inr [\<lparr>gw_freq = 2 / 1000, SNR = E\<rparr>, \<lparr>gw_freq = 2 / 1000, SNR = E\<rparr>]"
    unfolding LISA_SNR_of_SNR_dat [OF dat] using E by simp
  have "1 < SNR \<lparr>gw_freq = 2 / 1000, SNR = E\<rparr>"
    by (rule LISA_SNR_threshold [OF res]) simp
  with res show ?thesis unfolding E_def by blast
qed

lemma LISA_PSD_NameError:
  assumes "\<exists>b\<in>set cat. ecc b > 0.1"
  shows "LISA_PSD jv cat N Tobs = Inl NameError"
proof -
  have "length (np_where (map (\<lambda>b. ecc b > 0.1) cat)) > 0"
    using assms by (simp only: np_where_nonempty)
  then show ?thesis by (simp add: LISA_PSD_def Let_def)
qed

lemma LISA_PSD_circular:
  assumes "\<not> (\<exists>b\<in>set cat. ecc b > 0.1)"
  shows "\<not> isl (LISA_PSD jv cat N Tobs)"
proof -
  have "\<not> length (np_where (map (\<lambda>b. ecc b > 0.1) cat)) > 0"
    using assms unfolding np_where_nonempty .
  then show ?thesis by (simp add: LISA_PSD_def Let_def)
qed

text \<open>
  Claim C4. The claim says that \<open>LISA_PSD\<close> returns \<open>n_harmonic - 1\<close> rows for every
  eccentric source, 9 rows for a single source with \<open>ecc = 0.9\<close> and
  \<open>n_harmonic = 10\<close>. On that input the call ends in \<open>NameError\<close>, as it does for every
  catalog with an eccentric source (lemma \<open>LISA_PSD_NameError\<close>).
\<close>

theorem LISA_PSD_eccentric_fails:
  "LISA_PSD jv [scenario 0.9] 10 (4 * sec_in_year) = Inl NameError"
  by (rule LISA_PSD_NameError) simp













subsection \<open>Bin edges and bin indices\<close>

text \<open>
  The edges are increasing and lie in \<open>[start, stop)\<close>; on increasing edges the bin
  index of a sample is \<open>j + 1\<close> exactly when the sample lies between edge \<open>j\<close> and the
  next edge, if there is one.
\<close>

lemma map_of_set_column: "map_of (set_column df k v) = (map_of df)(k \<mapsto> v)"
  by (induction df k v rule: set_column.induct) (auto simp: fun_eq_iff)

lemma length_np_arange: "length (np_arange s e w) = nat \<lceil>(e - s) / w\<rceil>"
  by (simp add: np_arange_def)

lemma nth_np_arange: "j < length (np_arange s e w) \<Longrightarrow> np_arange s e w ! j = s + real j * w"
  by (simp add: np_arange_def)

lemma np_arange_step_pos:
  assumes "s < e" "0 < length (np_arange s e w)"
  shows "0 < w"
proof (rule ccontr)
  assume "\<not> 0 < w"
  then have "(e - s) / w \<le> 0" using assms(1) by (intro divide_nonneg_nonpos) simp_all
  then have "\<lceil>(e - s) / w\<rceil> \<le> 0" by (simp add: ceiling_le_zero)
  with assms(2) show False by (simp add: length_np_arange)
qed

lemma sorted_np_arange: "0 \<le> w \<Longrightarrow> sorted (np_arange s e w)"
  by (auto simp: sorted_iff_nth_mono length_np_arange nth_np_arange intro: mult_right_mono)

lemma np_arange_below_stop:
  assumes "0 < w" "j < length (np_arange s e w)"
  shows "np_arange s e w ! j < e"
proof -
  have "int j < \<lceil>(e - s) / w\<rceil>" using assms(2) by (simp add: length_np_arange)
  then have "real j < (e - s) / w" by (simp add: less_ceiling_iff)
  then have "real j * w < e - s" using assms(1) by (simp add: field_simps)
  then show ?thesis using assms(2) by (simp add: nth_np_arange)
qed

lemma np_arange_above_start:
  assumes "0 \<le> w" "j < length (np_arange s e w)"
  shows "s \<le> np_arange s e w ! j"
  using assms by (simp add: nth_np_arange)

lemma length_filter_le_sorted:
  assumes "sorted bins" "j < length bins"
  shows "bins ! j \<le> x \<longleftrightarrow> j < length (filter (\<lambda>b. b \<le> x) bins)"
  using assms
proof (induction bins arbitrary: j)
  case Nil
  then show ?case by simp
next
  case (Cons b bins)
  show ?case
  proof (cases j)
    case 0
    have "\<not> b \<le> x \<Longrightarrow> filter (\<lambda>b. b \<le> x) bins = []"
      using Cons.prems(1) by (auto simp: filter_empty_conv)
    with 0 show ?thesis by auto
  next
    case (Suc k)
    have k: "k < length bins" and srt: "sorted bins" using Cons.prems Suc by simp_all
    have "b \<le> bins ! k" using Cons.prems(1) nth_mem [OF k] by simp
    then have "bins ! k \<le> x \<Longrightarrow> b \<le> x" by simp
    with Cons.IH [OF srt k] Suc show ?thesis by auto
  qed
qed

lemma length_filter_le: "length (filter P xs) \<le> length xs"
  by simp

lemma digit_interval:
  assumes "sorted bins" "j < length bins"
  shows "length (filter (\<lambda>b. b \<le> x) bins) = Suc j
         \<longleftrightarrow> bins ! j \<le> x \<and> (Suc j < length bins \<longrightarrow> x < bins ! Suc j)"
proof (cases "Suc j < length bins")
  case True
  show ?thesis
    using length_filter_le_sorted [OF assms(1) assms(2), of x]
          length_filter_le_sorted [OF assms(1) True, of x] True
    by auto
next
  case False
  have "length (filter (\<lambda>b. b \<le> x) bins) \<le> length bins" by (rule length_filter_le)
  then show ?thesis
    using length_filter_le_sorted [OF assms(1) assms(2), of x] False assms(2)
    by linarith
qed

lemma digit_positive:
  assumes "sorted bins" "0 < length bins"
  shows "1 \<le> length (filter (\<lambda>b. b \<le> x) bins) \<longleftrightarrow> bins ! 0 \<le> x"
  using length_filter_le_sorted [OF assms, of x] by linarith

lemma sum_list_delta:
  "(\<Sum>d\<leftarrow>[a ..< b]. if k = d then v else 0) = (if a \<le> k \<and> k < b then v else (0::real))"
  by (simp add: interv_sum_list_conv_sum_set_nat)

lemma sum_groups:
  "(\<Sum>d\<leftarrow>[a ..< b]. sum_list (map snd (filter (\<lambda>(d', p). d' = d) zs)))
     = sum_list (map snd (filter (\<lambda>(d', p). a \<le> d' \<and> d' < b) zs))"
  for zs :: "(nat \<times> real) list"
proof (induction zs)
  case Nil
  then show ?case by simp
next
  case (Cons z zs)
  obtain k v where z: "z = (k, v)" by (cases z)
  have "(\<Sum>d\<leftarrow>[a ..< b]. sum_list (map snd (filter (\<lambda>(d', p). d' = d) (z # zs))))
      = (\<Sum>d\<leftarrow>[a ..< b]. (if k = d then v else 0)
            + sum_list (map snd (filter (\<lambda>(d', p). d' = d) zs)))"
    unfolding z by (intro arg_cong [where f = sum_list] map_cong refl) simp
  also have "\<dots> = (\<Sum>d\<leftarrow>[a ..< b]. if k = d then v else 0)
            + (\<Sum>d\<leftarrow>[a ..< b]. sum_list (map snd (filter (\<lambda>(d', p). d' = d) zs)))"
    by (simp add: sum_list_addf)
  also have "\<dots> = (if a \<le> k \<and> k < b then v else 0)
            + sum_list (map snd (filter (\<lambda>(d', p). a \<le> d' \<and> d' < b) zs))"
    by (simp only: sum_list_delta Cons.IH)
  also have "\<dots> = sum_list (map snd (filter (\<lambda>(d', p). a \<le> d' \<and> d' < b) (z # zs)))"
    unfolding z by simp
  finally show ?case .
qed

lemma zip_digitize:
  "zip (digitize fs bins) ps
     = map (\<lambda>(f, p). (length (filter (\<lambda>b. b \<le> f) bins), p)) (zip fs ps)"
  by (simp add: digitize_def zip_map1)

lemma group_by_digit:
  "map snd (filter (\<lambda>(d', p). Q d') (zip (digitize fs bins) ps))
     = map snd (filter (\<lambda>(f, p). Q (length (filter (\<lambda>b. b \<le> f) bins))) (zip fs ps))"
  unfolding zip_digitize filter_map
  by (simp add: o_def case_prod_unfold)

subsection \<open>The spectrum of \<open>compute_foreground\<close>\<close>

lemma groupby_sum_keys: "map fst (groupby_sum digits psd) = sort (remdups digits)"
  by (simp add: groupby_sum_def o_def)

lemma groupby_sum_vals:
  "map snd (groupby_sum digits psd)
     = map (\<lambda>d. sum_list (map snd (filter (\<lambda>(d', p). d' = d) (zip digits psd))))
         (sort (remdups digits))"
  by (simp add: groupby_sum_def o_def)

lemma empty_group:
  assumes "d \<notin> set digits"
  shows "sum_list (map snd (filter (\<lambda>(d', p). d' = d) (zip digits psd))) = (0::real)"
proof -
  have "filter (\<lambda>(d', p). d' = d) (zip digits psd) = []"
    using assms by (auto simp: filter_empty_conv dest: set_zip_leftD)
  then show ?thesis by simp
qed

lemma assign_all_groups:
  assumes "assign a (py_prefix (int L - 1) keys) (map g keys) = Inr pt" "2 \<le> L"
  shows "pt = put a keys (map g keys)"
proof -
  have idx: "py_prefix (int L - 1) keys = take (L - 1) keys"
    using assms(2) by (simp add: py_prefix_def nat_diff_distrib')
  show ?thesis
  proof (cases "length keys \<le> L - 1")
    case True
    then show ?thesis using assms(1) unfolding idx by (simp add: assign_def)
  next
    case False
    then have "length (take (L - 1) keys) = L - 1" and "length keys \<noteq> L - 1" by simp_all
    moreover have "length keys \<noteq> 1" using False assms(2) by simp
    ultimately show ?thesis using assms(1) unfolding idx by (simp add: assign_def)
  qed
qed

lemma compute_foreground_returns:
  assumes freq: "map_of psd_dat ''freq'' = Some fcol"
    and psd: "map_of psd_dat ''PSD'' = Some pcol"
    and ret: "fst (compute_foreground psd_dat Tobs) = Inr out"
    and two: "2 \<le> length out"
  shows "out = zip (np_arange (5 / 10 ^ 4) (1 / 10 ^ 2) (1 / Tobs))
                 (map (\<lambda>d. sum_list (map snd (filter (\<lambda>(d', p). d' = d)
                          (zip (digitize (as_floats fcol)
                                  (np_arange (5 / 10 ^ 4) (1 / 10 ^ 2) (1 / Tobs)))
                               (as_floats pcol)))))
                    [1 ..< Suc (length (np_arange (5 / 10 ^ 4) (1 / 10 ^ 2) (1 / Tobs)))])"
    and "length out = length (np_arange (5 / 10 ^ 4) (1 / 10 ^ 2) (1 / Tobs))"
proof -
  define bins where "bins = np_arange (5 / 10 ^ 4) (1 / 10 ^ 2) (1 / Tobs)"
  define digits where "digits = digitize (as_floats fcol) bins"
  define g where "g = (\<lambda>d. sum_list (map snd (filter (\<lambda>(d', p). d' = d)
                          (zip digits (as_floats pcol)))))"
  define keys where "keys = sort (remdups digits)"
  define a where "a = replicate (length bins + 1) (0::real)"
  have T: "Tobs \<noteq> 0" using ret by (auto simp: compute_foreground_def)
  have psd': "map_of (set_column psd_dat ''digits'' (IntCol (map int digits))) ''PSD'' = Some pcol"
    using psd by (simp add: map_of_set_column)
  have cf: "compute_foreground psd_dat Tobs =
      (case assign a (py_prefix (int (length bins) - 1) keys) (map g keys) of
         Inl e \<Rightarrow> (Inl e, set_column psd_dat ''digits'' (IntCol (map int digits)))
       | Inr pt \<Rightarrow> (Inr (zip bins (tl pt)),
                    set_column psd_dat ''digits'' (IntCol (map int digits))))"
    using T freq psd'
    unfolding bins_def digits_def g_def keys_def a_def compute_foreground_def Let_def
      groupby_sum_keys groupby_sum_vals
    by simp
  obtain pt where asg: "assign a (py_prefix (int (length bins) - 1) keys) (map g keys) = Inr pt"
    and out: "out = zip bins (tl pt)"
    using ret unfolding cf by (auto split: sum.splits)
  have len_pt: "length pt = length bins + 1"
    using asg by (auto simp: assign_def a_def length_put split: if_splits)
  have len: "length out = length bins" unfolding out using len_pt by simp
  with two have L: "2 \<le> length bins" by simp
  have pt: "pt = put a keys (map g keys)" by (rule assign_all_groups [OF asg L])
  have "pt = map g [0 ..< Suc (length bins)]"
  proof (intro nth_equalityI)
    show "length pt = length (map g [0 ..< Suc (length bins)])" using len_pt by simp
  next
    fix d assume "d < length pt"
    then have d: "d < length a" using len_pt by (simp add: a_def)
    have "pt ! d = (if d \<in> set keys then g d else a ! d)"
      unfolding pt by (rule nth_put_map [OF d])
    also have "\<dots> = g d"
    proof (cases "d \<in> set keys")
      case False
      then have "d \<notin> set digits" by (simp add: keys_def)
      then have "g d = 0" unfolding g_def by (rule empty_group)
      moreover have "a ! d = 0" using d unfolding a_def by (subst nth_replicate) simp_all
      ultimately show ?thesis using False by simp
    qed simp
    finally show "pt ! d = map g [0 ..< Suc (length bins)] ! d"
      using d by (simp add: a_def del: upt_Suc)
  qed
  then have "tl pt = map g [1 ..< Suc (length bins)]"
    by (simp add: map_tl [symmetric] del: upt_Suc)
  then show "out = zip (np_arange (5 / 10 ^ 4) (1 / 10 ^ 2) (1 / Tobs))
                 (map (\<lambda>d. sum_list (map snd (filter (\<lambda>(d', p). d' = d)
                          (zip (digitize (as_floats fcol)
                                  (np_arange (5 / 10 ^ 4) (1 / 10 ^ 2) (1 / Tobs)))
                               (as_floats pcol)))))
                    [1 ..< Suc (length (np_arange (5 / 10 ^ 4) (1 / 10 ^ 2) (1 / Tobs)))])"
    unfolding out g_def digits_def bins_def by simp
  show "length out = length (np_arange (5 / 10 ^ 4) (1 / 10 ^ 2) (1 / Tobs))"
    using len by (simp add: bins_def)
qed

lemma bins_positive_step:
  assumes "0 < length (np_arange (5 / 10 ^ 4) (1 / 10 ^ 2) (1 / Tobs))"
  shows "0 < 1 / Tobs"
  by (rule np_arange_step_pos [OF _ assms]) simp

text \<open>
  Claim C7, as amended. When \<open>compute_foreground\<close> returns a spectrum of at least two
  bins, bin \<open>j\<close> holds the summed PSD of the samples whose frequency lies between its
  left edge and the next edge, and the last bin that of all samples at or above its left
  edge. The first edge is \<open>5 * 10\<^sup>-\<^sup>4\<close> and every edge lies in
  \<open>[5 * 10\<^sup>-\<^sup>4, 10\<^sup>-\<^sup>2)\<close>: samples below \<open>5 * 10\<^sup>-\<^sup>4\<close> Hz are in no bin, and
  samples at or above \<open>10\<^sup>-\<^sup>2\<close> Hz are not excluded but summed into the last bin.
\<close>

theorem compute_foreground_bin_contents:
  assumes freq: "map_of psd_dat ''freq'' = Some fcol"
    and psd: "map_of psd_dat ''PSD'' = Some pcol"
    and ret: "fst (compute_foreground psd_dat Tobs) = Inr out"
    and two: "2 \<le> length out"
    and j: "j < length out"
  shows "snd (out ! j)
           = sum_list (map snd (filter
               (\<lambda>(f, p). fst (out ! j) \<le> f \<and> (Suc j < length out \<longrightarrow> f < fst (out ! Suc j)))
               (zip (as_floats fcol) (as_floats pcol))))
       \<and> fst (out ! 0) = 5 / 10 ^ 4
       \<and> 5 / 10 ^ 4 \<le> fst (out ! j)
       \<and> fst (out ! j) < 1 / 10 ^ 2"
proof -
  define bins where "bins = np_arange (5 / 10 ^ 4) (1 / 10 ^ 2) (1 / Tobs)"
  define g where "g = (\<lambda>d. sum_list (map snd (filter (\<lambda>(d', p). d' = d)
                          (zip (digitize (as_floats fcol) bins) (as_floats pcol)))))"
  have out: "out = zip bins (map g [1 ..< Suc (length bins)])" and len: "length out = length bins"
    unfolding bins_def g_def by (rule compute_foreground_returns [OF freq psd ret two])+
  have jb: "j < length bins" using j len by simp
  then have pos: "0 < length bins" by linarith
  have w: "0 < 1 / Tobs" using pos unfolding bins_def by (rule bins_positive_step)
  have srt: "sorted bins" unfolding bins_def using w by (intro sorted_np_arange) simp
  have edge: "fst (out ! i) = bins ! i" if "i < length bins" for i
    using that unfolding out by simp
  have "snd (out ! j) = g (Suc j)"
    using jb unfolding out by (simp del: upt_Suc)
  also have "\<dots> = sum_list (map snd (filter
               (\<lambda>(f, p). length (filter (\<lambda>b. b \<le> f) bins) = Suc j)
               (zip (as_floats fcol) (as_floats pcol))))"
    unfolding g_def by (simp only: group_by_digit)
  also have "\<dots> = sum_list (map snd (filter
               (\<lambda>(f, p). bins ! j \<le> f \<and> (Suc j < length bins \<longrightarrow> f < bins ! Suc j))
               (zip (as_floats fcol) (as_floats pcol))))"
    by (simp only: digit_interval [OF srt jb])
  also have "\<dots> = sum_list (map snd (filter
               (\<lambda>(f, p). fst (out ! j) \<le> f \<and> (Suc j < length out \<longrightarrow> f < fst (out ! Suc j)))
               (zip (as_floats fcol) (as_floats pcol))))"
  proof -
    have "(bins ! j \<le> f \<and> (Suc j < length bins \<longrightarrow> f < bins ! Suc j))
        = (fst (out ! j) \<le> f \<and> (Suc j < length out \<longrightarrow> f < fst (out ! Suc j)))" for f
      using jb by (auto simp: edge len)
    then show ?thesis by simp
  qed
  finally have contents: "snd (out ! j) = sum_list (map snd (filter
               (\<lambda>(f, p). fst (out ! j) \<le> f \<and> (Suc j < length out \<longrightarrow> f < fst (out ! Suc j)))
               (zip (as_floats fcol) (as_floats pcol))))" .
  have first: "fst (out ! 0) = 5 / 10 ^ 4"
    using pos by (simp add: edge [OF pos]) (simp add: bins_def nth_np_arange)
  have lo: "5 / 10 ^ 4 \<le> fst (out ! j)"
    unfolding edge [OF jb] bins_def
    using w jb unfolding bins_def by (intro np_arange_above_start) simp_all
  have hi: "fst (out ! j) < 1 / 10 ^ 2"
    unfolding edge [OF jb] bins_def
    using w jb unfolding bins_def by (intro np_arange_below_stop)
  from contents first lo hi show ?thesis by blast
qed

theorem compute_foreground_bin_contents_witness:
  "map_of [(''freq'', FloatCol [2 / 100, 1 / 1000, 1 / 10000]), (''PSD'', FloatCol [1, 2, 3])] ''freq''
     = Some (FloatCol [2 / 100, 1 / 1000, 1 / 10000])
   \<and> map_of [(''freq'', FloatCol [2 / 100, 1 / 1000, 1 / 10000]), (''PSD'', FloatCol [1, 2, 3])] ''PSD''
     = Some (FloatCol [1, 2, 3])
   \<and> fst (compute_foreground
        [(''freq'', FloatCol [2 / 100, 1 / 1000, 1 / 10000]), (''PSD'', FloatCol [1, 2, 3])] 400)
     = Inr [(1 / 2000, 2), (3 / 1000, 0), (11 / 2000, 0), (1 / 125, 1)]
   \<and> 2 \<le> length [(1 / 2000 :: real, 2 :: real), (3 / 1000, 0), (11 / 2000, 0), (1 / 125, 1)]
   \<and> 3 < length [(1 / 2000 :: real, 2 :: real), (3 / 1000, 0), (11 / 2000, 0), (1 / 125, 1)]
   \<and> snd ([(1 / 2000 :: real, 2 :: real), (3 / 1000, 0), (11 / 2000, 0), (1 / 125, 1)] ! 3)
       = sum_list (map snd (filter (\<lambda>(f, p). 1 / 125 \<le> f)
           (zip [2 / 100, 1 / 1000, 1 / 10000 :: real] [1, 2, 3 :: real])))"
proof -
  have freq: "map_of [(''freq'', FloatCol [2 / 100, 1 / 1000, 1 / 10000]), (''PSD'', FloatCol [1, 2, 3])] ''freq''
     = Some (FloatCol [2 / 100, 1 / 1000, 1 / 10000])" by simp
  have psd: "map_of [(''freq'', FloatCol [2 / 100, 1 / 1000, 1 / 10000]), (''PSD'', FloatCol [1, 2, 3])] ''PSD''
     = Some (FloatCol [1, 2, 3])" by simp
  have ret: "fst (compute_foreground
        [(''freq'', FloatCol [2 / 100, 1 / 1000, 1 / 10000]), (''PSD'', FloatCol [1, 2, 3])] 400)
     = Inr [(1 / 2000, 2), (3 / 1000, 0), (11 / 2000, 0), (1 / 125, 1)]" by code_simp
  have two: "2 \<le> length [(1 / 2000 :: real, 2 :: real), (3 / 1000, 0), (11 / 2000, 0), (1 / 125, 1)]"
    by simp
  have j: "3 < length [(1 / 2000 :: real, 2 :: real), (3 / 1000, 0), (11 / 2000, 0), (1 / 125, 1)]"
    by simp
  from compute_foreground_bin_contents [OF freq psd ret two j]
  have "snd ([(1 / 2000 :: real, 2 :: real), (3 / 1000, 0), (11 / 2000, 0), (1 / 125, 1)] ! 3)
       = sum_list (map snd (filter (\<lambda>(f, p). 1 / 125 \<le> f)
           (zip [2 / 100, 1 / 1000, 1 / 10000 :: real] [1, 2, 3 :: real])))"
    by simp
  with freq psd ret two j show ?thesis by blast
qed

text \<open>
  Claim C7 as stated fails: a single sample at 0.02 Hz, outside
  \<open>[5 * 10\<^sup>-\<^sup>4, 10\<^sup>-\<^sup>2)\<close>, with PSD 1 and \<open>Tobs = 400\<close> puts its PSD into the last
  of the four bins.
\<close>

theorem compute_foreground_out_of_range_counterexample:
  "fst (compute_foreground [(''freq'', FloatCol [2 / 100]), (''PSD'', FloatCol [1])] 400)
     = Inr [(1 / 2000, 0), (3 / 1000, 0), (11 / 2000, 0), (1 / 125, 1)]"
  by code_simp

text \<open>
  Claim C8, as amended. When \<open>compute_foreground\<close> returns a spectrum of at least two
  bins, the PSD column of the spectrum sums to the PSD of the samples whose frequency is
  at least \<open>5 * 10\<^sup>-\<^sup>4\<close> Hz; samples at or above \<open>10\<^sup>-\<^sup>2\<close> Hz are counted (in the
  last bin).
\<close>

theorem compute_foreground_total:
  assumes freq: "map_of psd_dat ''freq'' = Some fcol"
    and psd: "map_of psd_dat ''PSD'' = Some pcol"
    and ret: "fst (compute_foreground psd_dat Tobs) = Inr out"
    and two: "2 \<le> length out"
  shows "sum_list (map snd out)
           = sum_list (map snd (filter (\<lambda>(f, p). 5 / 10 ^ 4 \<le> f)
                                  (zip (as_floats fcol) (as_floats pcol))))"
proof -
  define bins where "bins = np_arange (5 / 10 ^ 4) (1 / 10 ^ 2) (1 / Tobs)"
  define g where "g = (\<lambda>d. sum_list (map snd (filter (\<lambda>(d', p). d' = d)
                          (zip (digitize (as_floats fcol) bins) (as_floats pcol)))))"
  have out: "out = zip bins (map g [1 ..< Suc (length bins)])" and len: "length out = length bins"
    unfolding bins_def g_def by (rule compute_foreground_returns [OF freq psd ret two])+
  have pos: "0 < length bins" using two len by linarith
  have w: "0 < 1 / Tobs" using pos unfolding bins_def by (rule bins_positive_step)
  have srt: "sorted bins" unfolding bins_def using w by (intro sorted_np_arange) simp
  have first: "bins ! 0 = 5 / 10 ^ 4" using pos by (simp add: bins_def nth_np_arange)
  have "map snd out = map g [1 ..< Suc (length bins)]"
    unfolding out by (simp del: upt_Suc)
  then have "sum_list (map snd out) = (\<Sum>d\<leftarrow>[1 ..< Suc (length bins)]. g d)" by simp
  also have "\<dots> = sum_list (map snd (filter (\<lambda>(d', p). 1 \<le> d' \<and> d' < Suc (length bins))
                          (zip (digitize (as_floats fcol) bins) (as_floats pcol))))"
    unfolding g_def by (rule sum_groups)
  also have "\<dots> = sum_list (map snd (filter
               (\<lambda>(f, p). 1 \<le> length (filter (\<lambda>b. b \<le> f) bins)
                         \<and> length (filter (\<lambda>b. b \<le> f) bins) < Suc (length bins))
               (zip (as_floats fcol) (as_floats pcol))))"
    by (simp only: group_by_digit)
  also have "\<dots> = sum_list (map snd (filter (\<lambda>(f, p). 5 / 10 ^ 4 \<le> f)
                                  (zip (as_floats fcol) (as_floats pcol))))"
  proof -
    have "(1 \<le> length (filter (\<lambda>b. b \<le> f) bins)
             \<and> length (filter (\<lambda>b. b \<le> f) bins) < Suc (length bins))
           = (5 / 10 ^ 4 \<le> f)" for f
    proof -
      have "length (filter (\<lambda>b. b \<le> f) bins) < Suc (length bins)"
        by (rule le_imp_less_Suc) (rule length_filter_le)
      then show ?thesis using digit_positive [OF srt pos, of f] unfolding first by blast
    qed
    then show ?thesis by simp
  qed
  finally show ?thesis .
qed

theorem compute_foreground_total_witness:
  "map_of [(''freq'', FloatCol [2 / 100, 1 / 1000, 1 / 10000]), (''PSD'', FloatCol [1, 2, 3])] ''freq''
     = Some (FloatCol [2 / 100, 1 / 1000, 1 / 10000])
   \<and> map_of [(''freq'', FloatCol [2 / 100, 1 / 1000, 1 / 10000]), (''PSD'', FloatCol [1, 2, 3])] ''PSD''
     = Some (FloatCol [1, 2, 3])
   \<and> fst (compute_foreground
        [(''freq'', FloatCol [2 / 100, 1 / 1000, 1 / 10000]), (''PSD'', FloatCol [1, 2, 3])] 400)
     = Inr [(1 / 2000, 2), (3 / 1000, 0), (11 / 2000, 0), (1 / 125, 1)]
   \<and> 2 \<le> length [(1 / 2000 :: real, 2 :: real), (3 / 1000, 0), (11 / 2000, 0), (1 / 125, 1)]
   \<and> sum_list (map snd [(1 / 2000 :: real, 2 :: real), (3 / 1000, 0), (11 / 2000, 0), (1 / 125, 1)])
       = sum_list (map snd (filter (\<lambda>(f, p). 5 / 10 ^ 4 \<le> f)
           (zip [2 / 100, 1 / 1000, 1 / 10000 :: real] [1, 2, 3 :: real])))"
proof -
  have freq: "map_of [(''freq'', FloatCol [2 / 100, 1 / 1000, 1 / 10000]), (''PSD'', FloatCol [1, 2, 3])] ''freq''
     = Some (FloatCol [2 / 100, 1 / 1000, 1 / 10000])" by simp
  have psd: "map_of [(''freq'', FloatCol [2 / 100, 1 / 1000, 1 / 10000]), (''PSD'', FloatCol [1, 2, 3])] ''PSD''
     = Some (FloatCol [1, 2, 3])" by simp
  have ret: "fst (compute_foreground
        [(''freq'', FloatCol [2 / 100, 1 / 1000, 1 / 10000]), (''PSD'', FloatCol [1, 2, 3])] 400)
     = Inr [(1 / 2000, 2), (3 / 1000, 0), (11 / 2000, 0), (1 / 125, 1)]" by code_simp
  have two: "2 \<le> length [(1 / 2000 :: real, 2 :: real), (3 / 1000, 0), (11 / 2000, 0), (1 / 125, 1)]"
    by simp
  from compute_foreground_total [OF freq psd ret two]
  have "sum_list (map snd [(1 / 2000 :: real, 2 :: real), (3 / 1000, 0), (11 / 2000, 0), (1 / 125, 1)])
       = sum_list (map snd (filter (\<lambda>(f, p). 5 / 10 ^ 4 \<le> f)
           (zip [2 / 100, 1 / 1000, 1 / 10000 :: real] [1, 2, 3 :: real])))"
    by simp
  with freq psd ret two show ?thesis by blast
qed

text \<open>
  Claim C8 as stated fails: for the single sample at 0.02 Hz with PSD 1 and
  \<open>Tobs = 400\<close> the spectrum sums to 1, while the samples within
  \<open>[5 * 10\<^sup>-\<^sup>4, 10\<^sup>-\<^sup>2)\<close> sum to 0.
\<close>

theorem compute_foreground_total_counterexample:
  "sum_list (map snd (projr (fst (compute_foreground
        [(''freq'', FloatCol [2 / 100]), (''PSD'', FloatCol [1])] 400)))) = 1
   \<and> sum_list (map snd (filter (\<lambda>(f, p). 5 / 10 ^ 4 \<le> f \<and> f < 1 / 10 ^ 2)
        (zip [2 / 100 :: real] [1 :: real]))) = 0"
  by code_simp

subsection \<open>The effect of \<open>compute_foreground\<close> on its argument\<close>

lemma map_of_compute_foreground_other:
  assumes "name \<noteq> ''digits''"
  shows "map_of (snd (compute_foreground psd_dat Tobs)) name = map_of psd_dat name"
  using assms
  by (auto simp: compute_foreground_def Let_def map_of_set_column split: option.splits sum.splits)

lemma map_of_compute_foreground_digits:
  assumes "Tobs \<noteq> 0" "map_of psd_dat ''freq'' = Some fcol"
  shows "map_of (snd (compute_foreground psd_dat Tobs)) ''digits''
       = Some (IntCol (map int (digitize (as_floats fcol)
                                  (np_arange (5 / 10 ^ 4) (1 / 10 ^ 2) (1 / Tobs)))))"
  using assms
  by (auto simp: compute_foreground_def Let_def map_of_set_column split: option.splits sum.splits)

text \<open>
  Claim C10, as amended. \<open>compute_foreground\<close> leaves every column of \<open>psd_dat\<close>
  other than \<open>digits\<close> unchanged, and for \<open>Tobs > 0\<close> and a table with a \<open>freq\<close>
  column it stores the bin index of every sample in the column \<open>digits\<close> of
  \<open>psd_dat\<close> (line 291).
\<close>

theorem compute_foreground_writes_digits:
  "(\<forall>name. name \<noteq> ''digits'' \<longrightarrow>
       map_of (snd (compute_foreground psd_dat Tobs)) name = map_of psd_dat name)
   \<and> (0 < Tobs \<and> map_of psd_dat ''freq'' = Some fcol \<longrightarrow>
       map_of (snd (compute_foreground psd_dat Tobs)) ''digits''
         = Some (IntCol (map int (digitize (as_floats fcol)
                                    (np_arange (5 / 10 ^ 4) (1 / 10 ^ 2) (1 / Tobs))))))"
  using map_of_compute_foreground_other [of _ psd_dat Tobs]
    map_of_compute_foreground_digits [of Tobs psd_dat fcol]
  by auto

theorem compute_foreground_writes_digits_witness:
  "(0 :: real) < 400
   \<and> map_of [(''freq'', FloatCol [2 / 100, 1 / 1000, 1 / 10000]), (''PSD'', FloatCol [1, 2, 3])] ''freq''
       = Some (FloatCol [2 / 100, 1 / 1000, 1 / 10000])
   \<and> ''PSD'' \<noteq> ''digits''
   \<and> map_of (snd (compute_foreground
        [(''freq'', FloatCol [2 / 100, 1 / 1000, 1 / 10000]), (''PSD'', FloatCol [1, 2, 3])] 400)) ''PSD''
       = Some (FloatCol [1, 2, 3])
   \<and> map_of (snd (compute_foreground
        [(''freq'', FloatCol [2 / 100, 1 / 1000, 1 / 10000]), (''PSD'', FloatCol [1, 2, 3])] 400)) ''digits''
       = Some (IntCol [4, 1, 0])"
proof -
  have dig: "map int (digitize (as_floats (FloatCol [2 / 100, 1 / 1000, 1 / 10000]))
               (np_arange (5 / 10 ^ 4) (1 / 10 ^ 2) (1 / 400))) = [4, 1, 0]"
    by code_simp
  have freq: "map_of [(''freq'', FloatCol [2 / 100, 1 / 1000, 1 / 10000]), (''PSD'', FloatCol [1, 2, 3])] ''freq''
       = Some (FloatCol [2 / 100, 1 / 1000, 1 / 10000])" by simp
  from compute_foreground_writes_digits
    [of "[(''freq'', FloatCol [2 / 100, 1 / 1000, 1 / 10000]), (''PSD'', FloatCol [1, 2, 3])]" 400
        "FloatCol [2 / 100, 1 / 1000, 1 / 10000]"]
  have "map_of (snd (compute_foreground
        [(''freq'', FloatCol [2 / 100, 1 / 1000, 1 / 10000]), (''PSD'', FloatCol [1, 2, 3])] 400)) ''PSD''
       = Some (FloatCol [1, 2, 3])"
    and "map_of (snd (compute_foreground
        [(''freq'', FloatCol [2 / 100, 1 / 1000, 1 / 10000]), (''PSD'', FloatCol [1, 2, 3])] 400)) ''digits''
       = Some (IntCol [4, 1, 0])"
    unfolding dig by simp_all
  with freq show ?thesis by simp
qed

text \<open>
  Claim C10 as stated fails: after the call the caller's table has a third column,
  \<open>digits\<close>.
\<close>

theorem compute_foreground_mutates_input_counterexample:
  "snd (compute_foreground
        [(''freq'', FloatCol [2 / 100, 1 / 1000, 1 / 10000]), (''PSD'', FloatCol [1, 2, 3])] 400)
     = [(''freq'', FloatCol [2 / 100, 1 / 1000, 1 / 10000]), (''PSD'', FloatCol [1, 2, 3]),
        (''digits'', IntCol [4, 1, 0])]"
  by code_simp

end
